theory Spec2Isabelle
  imports Complex_Main "HOL-Library.List_Lexorder"
begin

section \<open>Strings, column labels and numbers\<close>

text \<open>
  A Python \<open>str\<close> is a sequence of Unicode code points; it is modelled as the list of
  its code points, so that \<open>in\<close>, \<open>strip\<close> and the ordering used by pandas work on
  the same units as in the source. The Korean literals of the source are written by
  their code points.
\<close>

type_synonym pystr = "nat list"

text \<open>\<open>k in s\<close> on two strings: \<open>k\<close> occurs in \<open>s\<close> as a contiguous run.\<close>

fun startswith :: "pystr \<Rightarrow> pystr \<Rightarrow> bool" where
  "startswith s [] = True"
| "startswith [] (k # ks) = False"
| "startswith (c # cs) (k # ks) = (c = k \<and> startswith cs ks)"

fun str_in :: "pystr \<Rightarrow> pystr \<Rightarrow> bool" where
  "str_in k [] = (k = [])"
| "str_in k (c # cs) = (startswith (c # cs) k \<or> str_in k cs)"

text \<open>
  \<open>str.isspace\<close> for one code point (the whitespace table of CPython), and
  \<open>str.strip()\<close>, which removes the whitespace at both ends.
\<close>

definition isspace :: "nat \<Rightarrow> bool" where
  "isspace c = ((0x09 \<le> c \<and> c \<le> 0x0D) \<or> (0x1C \<le> c \<and> c \<le> 0x20) \<or> c = 0x85 \<or> c = 0xA0
     \<or> c = 0x1680 \<or> (0x2000 \<le> c \<and> c \<le> 0x200A) \<or> c = 0x2028 \<or> c = 0x2029
     \<or> c = 0x202F \<or> c = 0x205F \<or> c = 0x3000)"

definition lstrip :: "pystr \<Rightarrow> pystr" where
  "lstrip s = dropWhile isspace s"

definition rstrip :: "pystr \<Rightarrow> pystr" where
  "rstrip s = rev (dropWhile isspace (rev s))"

definition strip :: "pystr \<Rightarrow> pystr" where
  "strip s = rstrip (lstrip s)"

text \<open>
  A column label of the sheet is a text or an integer (a header cell \<open>2023\<close> is read as
  the integer). \<open>str(c)\<close> of a label is the text itself or the decimal numeral.
\<close>

datatype label = TextLabel pystr | IntLabel int

function digits :: "nat \<Rightarrow> pystr" where
  "digits n = (if n < 10 then [0x30 + n] else digits (n div 10) @ [0x30 + n mod 10])"
  by pat_completeness auto
termination
  by (relation "measure (\<lambda>n. n)") auto

declare digits.simps [simp del]

definition str_int :: "int \<Rightarrow> pystr" where
  "str_int i = (if i < 0 then 0x2D # digits (nat (- i)) else digits (nat i))"

fun str :: "label \<Rightarrow> pystr" where
  "str (TextLabel s) = s"
| "str (IntLabel i) = str_int i"

text \<open>\<open>int(s)\<close> on a string of decimal digits (the only strings the source converts).\<close>

definition int_of_str :: "pystr \<Rightarrow> int" where
  "int_of_str s = foldl (\<lambda>a c. 10 * a + (int c - 0x30)) 0 s"

text \<open>
  A number held in a numeric column is an IEEE double. Finite values are modelled as
  reals (rounding and overflow are not modelled, and zero has no sign); the three
  non-finite values are kept, with the arithmetic the hardware gives them. Division is
  the element-wise division of two float columns: it never raises, a zero divisor gives
  an infinity or NaN.
\<close>

datatype num = Fin real | PInf | NInf | NaN

fun isfinite :: "num \<Rightarrow> bool" where
  "isfinite (Fin x) = True"
| "isfinite v = False"

fun neg :: "num \<Rightarrow> num" where
  "neg (Fin x) = Fin (- x)"
| "neg PInf = NInf"
| "neg NInf = PInf"
| "neg NaN = NaN"

fun fadd :: "num \<Rightarrow> num \<Rightarrow> num" where
  "fadd (Fin a) (Fin b) = Fin (a + b)"
| "fadd NaN v = NaN"
| "fadd v NaN = NaN"
| "fadd PInf NInf = NaN"
| "fadd NInf PInf = NaN"
| "fadd PInf v = PInf"
| "fadd v PInf = PInf"
| "fadd NInf v = NInf"
| "fadd v NInf = NInf"

text \<open>An infinity scaled by a finite factor: the sign of the factor decides, zero gives NaN.\<close>

definition scale_inf :: "num \<Rightarrow> real \<Rightarrow> num" where
  "scale_inf i x = (if x = 0 then NaN else if 0 < x then i else neg i)"

fun fmul :: "num \<Rightarrow> num \<Rightarrow> num" where
  "fmul (Fin a) (Fin b) = Fin (a * b)"
| "fmul NaN v = NaN"
| "fmul v NaN = NaN"
| "fmul PInf (Fin b) = scale_inf PInf b"
| "fmul NInf (Fin b) = scale_inf NInf b"
| "fmul (Fin a) PInf = scale_inf PInf a"
| "fmul (Fin a) NInf = scale_inf NInf a"
| "fmul PInf PInf = PInf"
| "fmul NInf NInf = PInf"
| "fmul PInf NInf = NInf"
| "fmul NInf PInf = NInf"

fun fdiv :: "num \<Rightarrow> num \<Rightarrow> num" where
  "fdiv (Fin a) (Fin b) =
     (if b = 0 then (if a = 0 then NaN else if 0 < a then PInf else NInf) else Fin (a / b))"
| "fdiv NaN v = NaN"
| "fdiv v NaN = NaN"
| "fdiv (Fin a) PInf = Fin 0"
| "fdiv (Fin a) NInf = Fin 0"
| "fdiv PInf (Fin b) = (if 0 \<le> b then PInf else NInf)"
| "fdiv NInf (Fin b) = (if 0 \<le> b then NInf else PInf)"
| "fdiv PInf v = NaN"
| "fdiv NInf v = NaN"

text \<open>
  \<open>DataFrame.sum(axis=1)\<close> on one row: missing cells (NaN) are skipped and the sum of
  no cell is 0.
\<close>

fun isnan :: "num \<Rightarrow> bool" where
  "isnan NaN = True"
| "isnan v = False"

definition nansum :: "num list \<Rightarrow> num" where
  "nansum vs = foldl fadd (Fin 0) (filter (\<lambda>v. \<not> isnan v) vs)"

section \<open>The literals of the source\<close>

text \<open>
  The column names of the sheet: \<open>k_gender\<close> is the gender column, \<open>k_region\<close> the
  district column (the pivot's index), \<open>k_age\<close> the age-bracket column (the pivot's
  columns). \<open>k_total\<close> is the one-syllable label "total": the source uses it both as the
  gender value of the aggregate rows and as the age label of the total-population column.
\<close>

definition k_gender :: pystr where
  "k_gender = [0xC131, 0xBCC4]"

definition k_total :: pystr where
  "k_total = [0xACC4]"

definition k_region :: pystr where
  "k_region = [0xD589, 0xC815, 0xAD6C, 0xC5ED, 0x28, 0xC2DC, 0xAD70, 0xAD6C, 0x29, 0xBCC4]"

definition k_age :: pystr where
  "k_age = [0xC5F0, 0xB839, 0xBCC4]"

text \<open>The year labels \<open>'2024'\<close> and \<open>'2023'\<close>.\<close>

definition y2024 :: pystr where
  "y2024 = [0x32, 0x30, 0x32, 0x34]"

definition y2023 :: pystr where
  "y2023 = [0x32, 0x30, 0x32, 0x33]"

text \<open>
  The four bracket keywords: digits, space, hyphen, space, digits, then the syllable
  U+C138 ("years of age").
\<close>

definition kw_0_4 :: pystr where
  "kw_0_4 = [0x30, 0x20, 0x2D, 0x20, 0x34, 0xC138]"

definition kw_5_9 :: pystr where
  "kw_5_9 = [0x35, 0x20, 0x2D, 0x20, 0x39, 0xC138]"

definition kw_10_14 :: pystr where
  "kw_10_14 = [0x31, 0x30, 0x20, 0x2D, 0x20, 0x31, 0x34, 0xC138]"

definition kw_15_19 :: pystr where
  "kw_15_19 = [0x31, 0x35, 0x20, 0x2D, 0x20, 0x31, 0x39, 0xC138]"

text \<open>
  The two embedded dictionaries, as \<open>list(d.items())\<close> gives them: one pair per district,
  in the order of the literal. Gangnam-gu is the first entry of both.
\<close>

definition PRICE_DATA_2024 :: "(pystr \<times> int) list" where
  "PRICE_DATA_2024 =
   [([0xAC15, 0xB0A8, 0xAD6C], 8150), ([0xC11C, 0xCD08, 0xAD6C], 7720),
    ([0xC6A9, 0xC0B0, 0xAD6C], 6250), ([0xC1A1, 0xD30C, 0xAD6C], 5980),
    ([0xC131, 0xB3D9, 0xAD6C], 5250), ([0xB9C8, 0xD3EC, 0xAD6C], 4700),
    ([0xAD11, 0xC9C4, 0xAD6C], 4450), ([0xC591, 0xCC9C, 0xAD6C], 4400),
    ([0xC601, 0xB4F1, 0xD3EC, 0xAD6C], 4150), ([0xAC15, 0xB3D9, 0xAD6C], 4100),
    ([0xB3D9, 0xC791, 0xAD6C], 4000), ([0xC911, 0xAD6C], 3850),
    ([0xC885, 0xB85C, 0xAD6C], 3700), ([0xC11C, 0xB300, 0xBB38, 0xAD6C], 3500),
    ([0xB3D9, 0xB300, 0xBB38, 0xAD6C], 3350), ([0xC131, 0xBD81, 0xAD6C], 3150),
    ([0xAC15, 0xC11C, 0xAD6C], 3100), ([0xAD00, 0xC545, 0xAD6C], 3000),
    ([0xC740, 0xD3C9, 0xAD6C], 2950), ([0xAD6C, 0xB85C, 0xAD6C], 2850),
    ([0xB178, 0xC6D0, 0xAD6C], 2800), ([0xC911, 0xB791, 0xAD6C], 2650),
    ([0xAC15, 0xBD81, 0xAD6C], 2600), ([0xAE08, 0xCC9C, 0xAD6C], 2550),
    ([0xB3C4, 0xBD09, 0xAD6C], 2450)]"

definition ACADEMY_DATA :: "(pystr \<times> int) list" where
  "ACADEMY_DATA =
   [([0xAC15, 0xB0A8, 0xAD6C], 2578), ([0xC591, 0xCC9C, 0xAD6C], 1050),
    ([0xC1A1, 0xD30C, 0xAD6C], 1155), ([0xC11C, 0xCD08, 0xAD6C], 1187),
    ([0xB178, 0xC6D0, 0xAD6C], 739), ([0xAC15, 0xB3D9, 0xAD6C], 680),
    ([0xC131, 0xBD81, 0xAD6C], 550), ([0xB9C8, 0xD3EC, 0xAD6C], 520),
    ([0xAC15, 0xC11C, 0xAD6C], 600), ([0xC740, 0xD3C9, 0xAD6C], 538),
    ([0xB3D9, 0xC791, 0xAD6C], 450), ([0xC601, 0xB4F1, 0xD3EC, 0xAD6C], 430),
    ([0xC11C, 0xB300, 0xBB38, 0xAD6C], 370), ([0xAD11, 0xC9C4, 0xAD6C], 390),
    ([0xB3D9, 0xB300, 0xBB38, 0xAD6C], 350), ([0xAD00, 0xC545, 0xAD6C], 380),
    ([0xC131, 0xB3D9, 0xAD6C], 320), ([0xAD6C, 0xB85C, 0xAD6C], 340),
    ([0xC911, 0xB791, 0xAD6C], 300), ([0xB3C4, 0xBD09, 0xAD6C], 290),
    ([0xAC15, 0xBD81, 0xAD6C], 220), ([0xAE08, 0xCC9C, 0xAD6C], 200),
    ([0xC6A9, 0xC0B0, 0xAD6C], 180), ([0xC885, 0xB85C, 0xAD6C], 230),
    ([0xC911, 0xAD6C], 150)]"

section \<open>The population sheet and the tables built from it\<close>

text \<open>
  The sheet read by \<open>pd.read_excel\<close>: its header (\<open>columns\<close>) and its rows. A row holds the
  texts of the three key columns and, under every other column, a number (NaN for an
  empty cell). Reading can fail (file missing or unparsable), which is \<open>Unreadable\<close>.
\<close>

record pop_row =
  district :: pystr
  gender :: pystr
  age_label :: pystr
  cell :: "label \<Rightarrow> num"

record pop_table =
  columns :: "label list"
  rows :: "pop_row list"

datatype source = Unreadable | Sheet pop_table

text \<open>
  The exceptions of the try block: the read failing, a column label that is not there
  (\<open>KeyError\<close>), and the pivot refusing two rows with the same district and age label
  (\<open>ValueError\<close>).
\<close>

datatype error = ReadError | KeyError label | ValueError

text \<open>
  \<open>df_pivot\<close>: one row per district (\<open>index\<close>) with one number per age label
  (\<open>cells\<close>, in the order of \<open>age_columns\<close>). The columns added by the source are the
  further fields of \<open>youth_row\<close>, and the columns of the merged table those of
  \<open>merged_row\<close>. The age labels of the sheet are taken to differ from the names of
  the added columns, so that no added column replaces or renames an age column.
\<close>

record pivot_row =
  index :: pystr
  cells :: "(pystr \<times> num) list"

record frame =
  age_columns :: "pystr list"
  frame_rows :: "pivot_row list"

record youth_row = pivot_row +
  infant :: num
  elementary :: num
  adolescent :: num
  total_pop :: num
  ratio_infant :: num
  ratio_elem :: num
  ratio_adol :: num
  ratio_total_youth :: num

record merged_row = youth_row +
  region :: pystr
  price :: int
  academy_count :: int

section \<open>The pipeline of \<open>load_and_process_data\<close>\<close>

text \<open>
  The choice of the year column: \<open>'2024'\<close> if some column label prints as \<open>'2024'\<close>,
  else \<open>'2023'\<close>; if the chosen text is not itself a column label, the integer of the
  same digits is taken.
\<close>

definition select_year :: "label list \<Rightarrow> label" where
  "select_year cols =
     (let target_year = (if y2024 \<in> set (map str cols) then y2024 else y2023)
      in if TextLabel target_year \<notin> set cols then IntLabel (int_of_str target_year)
         else TextLabel target_year)"

text \<open>
  \<open>DataFrame.pivot\<close> on the rows of the aggregate gender: the index holds the district
  names and the columns the age labels, each sorted and without repetition; a cell is
  the number of the row with that district and age label under the year column, and NaN
  where the sheet has no such row. Two rows with the same district and age label make the
  pivot raise \<open>ValueError\<close>.
\<close>

definition pivot_cell :: "pop_row list \<Rightarrow> label \<Rightarrow> pystr \<Rightarrow> pystr \<Rightarrow> num" where
  "pivot_cell rs year d a =
     (case find (\<lambda>r. district r = d \<and> age_label r = a) rs of
        None \<Rightarrow> NaN
      | Some r \<Rightarrow> cell r year)"

definition pivot :: "pop_row list \<Rightarrow> label \<Rightarrow> error + frame" where
  "pivot rs year =
     (if \<not> distinct (map (\<lambda>r. (district r, age_label r)) rs) then Inl ValueError
      else
        let ages = sort (remdups (map age_label rs)) in
        Inr \<lparr>age_columns = ages,
             frame_rows =
               map (\<lambda>d. \<lparr>index = d, cells = map (\<lambda>a. (a, pivot_cell rs year d a)) ages\<rparr>)
                 (sort (remdups (map district rs)))\<rparr>)"

text \<open>
  Lines 42 to 48: the rows of the aggregate gender are kept, the year column is chosen,
  the table is pivoted and the index is stripped. Each column looked up by name raises
  \<open>KeyError\<close> when the header does not have it.
\<close>

definition load_pivot :: "pop_table \<Rightarrow> error + frame" where
  "load_pivot t =
     (if TextLabel k_gender \<notin> set (columns t) then Inl (KeyError (TextLabel k_gender))
      else
        let df_pop = filter (\<lambda>r. gender r = k_total) (rows t);
            target_year = select_year (columns t)
        in if TextLabel k_region \<notin> set (columns t) then Inl (KeyError (TextLabel k_region))
           else if TextLabel k_age \<notin> set (columns t) then Inl (KeyError (TextLabel k_age))
           else if target_year \<notin> set (columns t) then Inl (KeyError target_year)
           else (case pivot df_pop target_year of
                   Inl e \<Rightarrow> Inl e
                 | Inr df_pivot \<Rightarrow>
                     Inr (df_pivot\<lparr>frame_rows :=
                            map (\<lambda>r. r\<lparr>index := strip (index r)\<rparr>) (frame_rows df_pivot)\<rparr>)))"

text \<open>
  \<open>get_sum\<close> for one row of \<open>df_pivot\<close>: the columns whose label contains one of the
  keywords are selected and their cells summed along the row.
\<close>

definition target_cols :: "pystr list \<Rightarrow> (pystr \<times> num) list \<Rightarrow> (pystr \<times> num) list" where
  "target_cols keyword_list cs = filter (\<lambda>(c, v). list_ex (\<lambda>k. str_in k c) keyword_list) cs"

definition get_sum :: "pystr list \<Rightarrow> (pystr \<times> num) list \<Rightarrow> num" where
  "get_sum keyword_list cs = nansum (map snd (target_cols keyword_list cs))"

text \<open>
  Lines 65 to 80 for one row: the three estimates, the total and the four ratios. The
  total is the cell labelled \<open>k_total\<close>; that the column exists is checked once for the
  table, in \<open>add_columns\<close>.
\<close>

definition lookup_cell :: "(pystr \<times> num) list \<Rightarrow> pystr \<Rightarrow> num" where
  "lookup_cell cs a = (case map_of cs a of None \<Rightarrow> NaN | Some v \<Rightarrow> v)"

definition youth :: "pivot_row \<Rightarrow> youth_row" where
  "youth r =
     (let col_0_4 = get_sum [kw_0_4] (cells r);
          col_5_9 = get_sum [kw_5_9] (cells r);
          col_10_14 = get_sum [kw_10_14] (cells r);
          col_15_19 = get_sum [kw_15_19] (cells r);
          inf = fadd col_0_4 (fmul col_5_9 (Fin 0.4));
          ele = fadd (fmul col_5_9 (Fin 0.6)) (fmul col_10_14 (Fin 0.6));
          ado = fadd (fmul col_10_14 (Fin 0.4)) (fmul col_15_19 (Fin 0.8));
          tot = lookup_cell (cells r) k_total;
          r_inf = fmul (fdiv inf tot) (Fin 100);
          r_ele = fmul (fdiv ele tot) (Fin 100);
          r_ado = fmul (fdiv ado tot) (Fin 100)
      in \<lparr>index = index r, cells = cells r,
          infant = inf, elementary = ele, adolescent = ado, total_pop = tot,
          ratio_infant = r_inf, ratio_elem = r_ele, ratio_adol = r_ado,
          ratio_total_youth = fadd (fadd r_inf r_ele) r_ado\<rparr>)"

definition add_columns :: "frame \<Rightarrow> error + youth_row list" where
  "add_columns df_pivot =
     (if k_total \<notin> set (age_columns df_pivot) then Inl (KeyError (TextLabel k_total))
      else Inr (map youth (frame_rows df_pivot)))"

text \<open>
  Lines 83 to 87: the two inner joins. The first pairs every price entry with the rows
  of \<open>df_pivot\<close> whose index is its district, in the order of the price entries; the
  second pairs every row of the result with the academy entries of its district.
\<close>

definition merge_price :: "(pystr \<times> int) list \<Rightarrow> youth_row list \<Rightarrow> (pystr \<times> int \<times> youth_row) list" where
  "merge_price df_price df_pivot =
     concat (map (\<lambda>(reg, p). map (\<lambda>y. (reg, p, y)) (filter (\<lambda>y. index y = reg) df_pivot)) df_price)"

definition merged_of :: "pystr \<Rightarrow> int \<Rightarrow> youth_row \<Rightarrow> int \<Rightarrow> merged_row" where
  "merged_of reg p y n =
     \<lparr>index = index y, cells = cells y,
      infant = infant y, elementary = elementary y, adolescent = adolescent y,
      total_pop = total_pop y, ratio_infant = ratio_infant y, ratio_elem = ratio_elem y,
      ratio_adol = ratio_adol y, ratio_total_youth = ratio_total_youth y,
      region = reg, price = p, academy_count = n\<rparr>"

definition merge_academy :: "(pystr \<times> int \<times> youth_row) list \<Rightarrow> (pystr \<times> int) list \<Rightarrow> merged_row list" where
  "merge_academy merged df_academy =
     concat (map (\<lambda>(reg, p, y).
                    map (\<lambda>(reg', n). merged_of reg p y n)
                      (filter (\<lambda>(reg', n). reg' = reg) df_academy)) merged)"

text \<open>
  The body of the try block, with the two dictionaries as parameters, and the function
  itself: an exception becomes the empty table together with the diagnostic shown by
  \<open>st.error\<close> (here the exception it reports).
\<close>

definition process :: "(pystr \<times> int) list \<Rightarrow> (pystr \<times> int) list \<Rightarrow> source \<Rightarrow> error + merged_row list" where
  "process df_price df_academy src =
     (case src of
        Unreadable \<Rightarrow> Inl ReadError
      | Sheet t \<Rightarrow>
          (case load_pivot t of
             Inl e \<Rightarrow> Inl e
           | Inr df_pivot \<Rightarrow>
               (case add_columns df_pivot of
                  Inl e \<Rightarrow> Inl e
                | Inr ys \<Rightarrow> Inr (merge_academy (merge_price df_price ys) df_academy))))"

definition load_and_process_data :: "source \<Rightarrow> merged_row list \<times> error option" where
  "load_and_process_data src =
     (case process PRICE_DATA_2024 ACADEMY_DATA src of
        Inl e \<Rightarrow> ([], Some e)
      | Inr merged \<Rightarrow> (merged, None))"

section \<open>Example inputs\<close>

text \<open>
  Sheets used to run the pipeline on concrete data. \<open>gangnam\<close> is the name of the first
  district of both dictionaries; \<open>aggregate_row\<close> builds a row of the aggregate gender
  whose number is the same under every year column.
\<close>

definition gangnam :: pystr where
  "gangnam = [0xAC15, 0xB0A8, 0xAD6C]"

definition aggregate_row :: "pystr \<Rightarrow> pystr \<Rightarrow> num \<Rightarrow> pop_row" where
  "aggregate_row d a v = \<lparr>district = d, gender = k_total, age_label = a, cell = (\<lambda>l. v)\<rparr>"

definition header_2023 :: "label list" where
  "header_2023 = [TextLabel k_region, TextLabel k_gender, TextLabel k_age, IntLabel 2023]"

text \<open>
  One district with 10000 people in each of the four brackets and 100000 in total, the
  age labels spelled as the keywords of the source.
\<close>

definition scenario_sheet :: pop_table where
  "scenario_sheet =
     \<lparr>columns = header_2023,
      rows = [aggregate_row gangnam kw_0_4 (Fin 10000), aggregate_row gangnam kw_5_9 (Fin 10000),
              aggregate_row gangnam kw_10_14 (Fin 10000), aggregate_row gangnam kw_15_19 (Fin 10000),
              aggregate_row gangnam k_total (Fin 100000)]\<rparr>"

definition scenario_cells :: "(pystr \<times> num) list" where
  "scenario_cells =
     [(kw_0_4, Fin 10000), (kw_10_14, Fin 10000), (kw_15_19, Fin 10000), (kw_5_9, Fin 10000),
      (k_total, Fin 100000)]"

definition scenario_frame :: frame where
  "scenario_frame =
     \<lparr>age_columns = [kw_0_4, kw_10_14, kw_15_19, kw_5_9, k_total],
      frame_rows = [\<lparr>index = gangnam, cells = scenario_cells\<rparr>]\<rparr>"

text \<open>
  Two more headers over a single total row: one with both years as text labels, one
  with no year column at all.
\<close>

definition text_years_sheet :: pop_table where
  "text_years_sheet =
     \<lparr>columns = [TextLabel k_region, TextLabel k_gender, TextLabel k_age, TextLabel y2023,
                 TextLabel y2024],
      rows = [aggregate_row gangnam k_total (Fin 100000)]\<rparr>"

definition no_year_sheet :: pop_table where
  "no_year_sheet =
     \<lparr>columns = [TextLabel k_region, TextLabel k_gender, TextLabel k_age],
      rows = [aggregate_row gangnam k_total (Fin 100000)]\<rparr>"

text \<open>
  A sheet whose aggregate rows repeat one district and age label, and a sheet with no
  row for the total column.
\<close>

definition duplicate_sheet :: pop_table where
  "duplicate_sheet =
     \<lparr>columns = header_2023,
      rows = [aggregate_row gangnam k_total (Fin 100000), aggregate_row gangnam k_total (Fin 7)]\<rparr>"

definition no_total_sheet :: pop_table where
  "no_total_sheet =
     \<lparr>columns = header_2023, rows = [aggregate_row gangnam kw_0_4 (Fin 10000)]\<rparr>"

text \<open>
  The same district as in \<open>scenario_sheet\<close>, with the age labels written without the
  spaces around the hyphen (\<open>'0-4'\<close>, \<open>'5-9'\<close>, \<open>'10-14'\<close>, \<open>'15-19'\<close>, each followed
  by U+C138).
\<close>

definition tight_0_4 :: pystr where
  "tight_0_4 = [0x30, 0x2D, 0x34, 0xC138]"

definition tight_5_9 :: pystr where
  "tight_5_9 = [0x35, 0x2D, 0x39, 0xC138]"

definition tight_10_14 :: pystr where
  "tight_10_14 = [0x31, 0x30, 0x2D, 0x31, 0x34, 0xC138]"

definition tight_15_19 :: pystr where
  "tight_15_19 = [0x31, 0x35, 0x2D, 0x31, 0x39, 0xC138]"

definition tight_sheet :: pop_table where
  "tight_sheet =
     \<lparr>columns = header_2023,
      rows = [aggregate_row gangnam tight_0_4 (Fin 10000), aggregate_row gangnam tight_5_9 (Fin 10000),
              aggregate_row gangnam tight_10_14 (Fin 10000),
              aggregate_row gangnam tight_15_19 (Fin 10000),
              aggregate_row gangnam k_total (Fin 100000)]\<rparr>"

definition tight_cells :: "(pystr \<times> num) list" where
  "tight_cells =
     [(tight_0_4, Fin 10000), (tight_10_14, Fin 10000), (tight_15_19, Fin 10000),
      (tight_5_9, Fin 10000), (k_total, Fin 100000)]"

text \<open>
  A row in which two labels contain the first keyword (the second is the keyword followed
  by \<open>' A'\<close>), one of them with a missing cell in a third column.
\<close>

definition two_match_cells :: "(pystr \<times> num) list" where
  "two_match_cells =
     [(kw_0_4, Fin 3), (kw_0_4 @ [0x20, 0x41], Fin 4), (0x42 # kw_0_4, NaN), (k_total, Fin 100)]"

text \<open>What a cell adds to a row sum: its number, and nothing when it is missing.\<close>

definition cell_value :: "num \<Rightarrow> real" where
  "cell_value v = (case v of Fin x \<Rightarrow> x | _ \<Rightarrow> 0)"

text \<open>
  A district whose total population is zero; a district whose name carries a leading
  space and a trailing space and ideographic space; and a district whose rows spell its
  name once plainly and once with a trailing space.
\<close>

definition zero_total_sheet :: pop_table where
  "zero_total_sheet =
     \<lparr>columns = header_2023,
      rows = [aggregate_row gangnam kw_0_4 (Fin 10000), aggregate_row gangnam k_total (Fin 0)]\<rparr>"

definition zero_total_cells :: "(pystr \<times> num) list" where
  "zero_total_cells = [(kw_0_4, Fin 10000), (k_total, Fin 0)]"

definition padded_gangnam :: pystr where
  "padded_gangnam = [0x20] @ gangnam @ [0x20, 0x3000]"

definition padded_sheet :: pop_table where
  "padded_sheet =
     \<lparr>columns = header_2023, rows = [aggregate_row padded_gangnam k_total (Fin 100000)]\<rparr>"

definition split_sheet :: pop_table where
  "split_sheet =
     \<lparr>columns = header_2023,
      rows = [aggregate_row gangnam k_total (Fin 100000),
              aggregate_row (gangnam @ [0x20]) kw_0_4 (Fin 10000)]\<rparr>"

text \<open>A number that is not negative: a finite one from 0 upwards, or plus infinity.\<close>

fun nonneg :: "num \<Rightarrow> bool" where
  "nonneg (Fin x) = (0 \<le> x)"
| "nonneg PInf = True"
| "nonneg NInf = False"
| "nonneg NaN = False"

text \<open>
  A sheet with two districts, the second of which (named \<open>'X'\<close>) is in neither
  dictionary.
\<close>

definition outsider_sheet :: pop_table where
  "outsider_sheet =
     \<lparr>columns = header_2023,
      rows = [aggregate_row gangnam k_total (Fin 100000), aggregate_row [0x58] k_total (Fin 5)]\<rparr>"


section \<open>Auxiliary facts\<close>

subsection \<open>Substrings and decimal numerals\<close>

lemma startswith_iff: "startswith s k \<longleftrightarrow> (\<exists>post. s = k @ post)"
  by (induction s k rule: startswith.induct) auto

lemma str_in_iff: "str_in k s \<longleftrightarrow> (\<exists>pre post. s = pre @ k @ post)"
proof (induction s)
  case Nil
  then show ?case by simp
next
  case (Cons c cs)
  show ?case
  proof
    assume "str_in k (c # cs)"
    then consider "startswith (c # cs) k" | "str_in k cs" by auto
    then show "\<exists>pre post. c # cs = pre @ k @ post"
    proof cases
      case 1
      then obtain post where "c # cs = k @ post" by (auto simp: startswith_iff)
      then have "c # cs = [] @ k @ post" by simp
      then show ?thesis by blast
    next
      case 2
      then obtain pre post where "cs = pre @ k @ post" using Cons.IH by auto
      then have "c # cs = (c # pre) @ k @ post" by simp
      then show ?thesis by blast
    qed
  next
    assume "\<exists>pre post. c # cs = pre @ k @ post"
    then obtain pre post where e: "c # cs = pre @ k @ post" by auto
    show "str_in k (c # cs)"
    proof (cases pre)
      case Nil
      with e have "startswith (c # cs) k" by (auto simp: startswith_iff)
      then show ?thesis by simp
    next
      case (Cons p ps)
      with e have "cs = ps @ k @ post" by simp
      then have "str_in k cs" using Cons.IH by auto
      then show ?thesis by simp
    qed
  qed
qed

lemma digits_snoc:
  "digits n = ds @ [d] \<Longrightarrow>
     d = 0x30 + n mod 10 \<and> (if n < 10 then ds = [] else ds = digits (n div 10))"
  by (subst (asm) digits.simps) (auto split: if_splits)

lemma digits_nonempty: "digits n \<noteq> []"
  by (subst digits.simps) auto

lemma digits_single: "digits n = [d] \<Longrightarrow> n < 10 \<and> d = 0x30 + n"
proof -
  assume a: "digits n = [d]"
  show ?thesis
  proof (cases "n < 10")
    case True
    then have "digits n = [0x30 + n]" by (subst digits.simps) simp
    with a True show ?thesis by simp
  next
    case False
    then have "digits n = digits (n div 10) @ [0x30 + n mod 10]" by (subst digits.simps) simp
    with a have "digits (n div 10) = []" by simp
    then show ?thesis using digits_nonempty by blast
  qed
qed

lemma decimal_2024:
  fixes n :: nat
  assumes d0: "n mod 10 = 4" and d1: "n div 10 mod 10 = 2" and d2: "n div 10 div 10 mod 10 = 0"
    and d3: "n div 10 div 10 div 10 = 2"
  shows "n = 2024"
proof -
  have e0: "n = n div 10 * 10 + n mod 10"
    by (rule div_mult_mod_eq[symmetric])
  have e1: "n div 10 = n div 10 div 10 * 10 + n div 10 mod 10"
    by (rule div_mult_mod_eq[symmetric])
  have e2: "n div 10 div 10 = n div 10 div 10 div 10 * 10 + n div 10 div 10 mod 10"
    by (rule div_mult_mod_eq[symmetric])
  have f2: "n div 10 div 10 = 20" by (subst e2) (simp add: d2 d3)
  have f1: "n div 10 = 202" by (subst e1) (simp add: d1 f2)
  show ?thesis by (subst e0) (simp add: d0 f1)
qed

lemma digits_2024: "digits n = y2024 \<longleftrightarrow> n = 2024"
proof
  assume a: "digits n = y2024"
  then have a': "digits n = [0x32, 0x30, 0x32] @ [0x34]" by (simp add: y2024_def)
  from digits_snoc[OF a'] have d0: "n mod 10 = 4" and n0: "\<not> n < 10"
    and r0: "digits (n div 10) = [0x32, 0x30] @ [0x32]"
    by (auto split: if_splits)
  from digits_snoc[OF r0] have d1: "n div 10 mod 10 = 2" and n1: "\<not> n div 10 < 10"
    and r1: "digits (n div 10 div 10) = [0x32] @ [0x30]"
    by (auto split: if_splits)
  from digits_snoc[OF r1] have d2: "n div 10 div 10 mod 10 = 0" and n2: "\<not> n div 10 div 10 < 10"
    and r2: "digits (n div 10 div 10 div 10) = [0x32]"
    by (auto split: if_splits)
  from digits_single[OF r2] have d3: "n div 10 div 10 div 10 = 2"
    by simp
  from d0 d1 d2 d3 show "n = 2024" by (rule decimal_2024)
next
  have "digits 2024 = y2024" by (simp add: digits.simps y2024_def)
  moreover assume "n = 2024"
  ultimately show "digits n = y2024" by (simp only:)
qed

lemma str_int_2024: "str_int i = y2024 \<longleftrightarrow> i = 2024"
proof (cases "i < 0")
  case True
  then show ?thesis by (auto simp: str_int_def y2024_def)
next
  case False
  then have "str_int i = digits (nat i)" by (simp add: str_int_def)
  with False show ?thesis using digits_2024[of "nat i"] by auto
qed

lemma str_2024: "str l = y2024 \<longleftrightarrow> l = TextLabel y2024 \<or> l = IntLabel 2024"
  by (cases l) (auto simp: str_int_2024)

lemma y2024_in_strs:
  "y2024 \<in> set (map str cols) \<longleftrightarrow> TextLabel y2024 \<in> set cols \<or> IntLabel 2024 \<in> set cols"
proof -
  have "y2024 \<in> set (map str cols) \<longleftrightarrow> (\<exists>l\<in>set cols. str l = y2024)"
    by (simp add: image_iff eq_commute[of y2024])
  also have "\<dots> \<longleftrightarrow> (\<exists>l\<in>set cols. l = TextLabel y2024 \<or> l = IntLabel 2024)"
    by (simp only: str_2024)
  also have "\<dots> \<longleftrightarrow> TextLabel y2024 \<in> set cols \<or> IntLabel 2024 \<in> set cols"
    by blast
  finally show ?thesis .
qed

lemma int_of_years: "int_of_str y2024 = 2024" "int_of_str y2023 = 2023"
  by (simp_all add: int_of_str_def y2024_def y2023_def)

lemma select_year_eq:
  "select_year cols =
     (if TextLabel y2024 \<in> set cols then TextLabel y2024
      else if IntLabel 2024 \<in> set cols then IntLabel 2024
      else if TextLabel y2023 \<in> set cols then TextLabel y2023
      else IntLabel 2023)"
  by (simp add: select_year_def Let_def y2024_in_strs int_of_years del: set_map)

subsection \<open>The pivot and the added columns\<close>

lemma load_pivot_Inr:
  assumes "load_pivot t = Inr df_pivot"
  shows "TextLabel k_gender \<in> set (columns t)"
    and "TextLabel k_region \<in> set (columns t)"
    and "TextLabel k_age \<in> set (columns t)"
    and "select_year (columns t) \<in> set (columns t)"
    and "age_columns df_pivot = sort (remdups (map age_label (filter (\<lambda>r. gender r = k_total) (rows t))))"
    and "frame_rows df_pivot =
           map (\<lambda>d. \<lparr>index = strip d,
                      cells = map (\<lambda>a. (a, pivot_cell (filter (\<lambda>r. gender r = k_total) (rows t))
                                          (select_year (columns t)) d a)) (age_columns df_pivot)\<rparr>)
             (sort (remdups (map district (filter (\<lambda>r. gender r = k_total) (rows t)))))"
  using assms
  by (auto simp: load_pivot_def pivot_def Let_def o_def split: if_splits sum.splits)

lemma load_pivot_index:
  assumes "load_pivot t = Inr df_pivot"
  shows "map index (frame_rows df_pivot) =
           map strip (sort (remdups (map district (filter (\<lambda>r. gender r = k_total) (rows t)))))"
  by (simp add: load_pivot_Inr(6)[OF assms] o_def)

lemma load_pivot_cells:
  assumes "load_pivot t = Inr df_pivot" and "r \<in> set (frame_rows df_pivot)"
  shows "map fst (cells r) = age_columns df_pivot"
  using assms(2) by (auto simp: load_pivot_Inr(6)[OF assms(1)] o_def)


lemma process_Inr:
  "process df_price df_academy (Sheet t) = Inr merged \<longleftrightarrow>
     (\<exists>df_pivot. load_pivot t = Inr df_pivot \<and> k_total \<in> set (age_columns df_pivot) \<and>
        merged = merge_academy (merge_price df_price (map youth (frame_rows df_pivot))) df_academy)"
  by (auto simp: process_def add_columns_def split: sum.splits)

lemma youth_fields:
  "index (youth r) = index r" "cells (youth r) = cells r"
  "total_pop (youth r) = lookup_cell (cells r) k_total"
  "infant (youth r) = fadd (get_sum [kw_0_4] (cells r)) (fmul (get_sum [kw_5_9] (cells r)) (Fin 0.4))"
  "elementary (youth r) =
     fadd (fmul (get_sum [kw_5_9] (cells r)) (Fin 0.6)) (fmul (get_sum [kw_10_14] (cells r)) (Fin 0.6))"
  "adolescent (youth r) =
     fadd (fmul (get_sum [kw_10_14] (cells r)) (Fin 0.4)) (fmul (get_sum [kw_15_19] (cells r)) (Fin 0.8))"
  "ratio_infant (youth r) = fmul (fdiv (infant (youth r)) (total_pop (youth r))) (Fin 100)"
  "ratio_elem (youth r) = fmul (fdiv (elementary (youth r)) (total_pop (youth r))) (Fin 100)"
  "ratio_adol (youth r) = fmul (fdiv (adolescent (youth r)) (total_pop (youth r))) (Fin 100)"
  "ratio_total_youth (youth r) =
     fadd (fadd (ratio_infant (youth r)) (ratio_elem (youth r))) (ratio_adol (youth r))"
  by (simp_all add: youth_def Let_def)

lemma merged_of_fields:
  "region (merged_of reg p y n) = reg" "price (merged_of reg p y n) = p"
  "academy_count (merged_of reg p y n) = n"
  "index (merged_of reg p y n) = index y" "cells (merged_of reg p y n) = cells y"
  "infant (merged_of reg p y n) = infant y" "elementary (merged_of reg p y n) = elementary y"
  "adolescent (merged_of reg p y n) = adolescent y" "total_pop (merged_of reg p y n) = total_pop y"
  "ratio_infant (merged_of reg p y n) = ratio_infant y"
  "ratio_elem (merged_of reg p y n) = ratio_elem y"
  "ratio_adol (merged_of reg p y n) = ratio_adol y"
  "ratio_total_youth (merged_of reg p y n) = ratio_total_youth y"
  by (simp_all add: merged_of_def)

subsection \<open>The joins\<close>

lemma merged_iff:
  "m \<in> set (merge_academy (merge_price df_price ys) df_academy) \<longleftrightarrow>
     (\<exists>reg p y n. (reg, p) \<in> set df_price \<and> y \<in> set ys \<and> index y = reg \<and>
        (reg, n) \<in> set df_academy \<and> m = merged_of reg p y n)"
  by (fastforce simp: merge_academy_def merge_price_def)

lemma merge_academy_append:
  "merge_academy (xs @ zs) df_academy = merge_academy xs df_academy @ merge_academy zs df_academy"
  by (simp add: merge_academy_def)

lemma count_keys:
  "distinct (map fst kvs) \<Longrightarrow>
     length (filter (\<lambda>(k, v). k = d) kvs) = (if d \<in> fst ` set kvs then 1 else 0)"
  by (induction kvs) (auto simp: image_iff)

lemma merge_academy_one:
  "length (filter (\<lambda>m. region m = d) (merge_academy (map (\<lambda>y. (reg, p, y)) ys) df_academy)) =
     (if reg = d then length ys * length (filter (\<lambda>(k, n). k = reg) df_academy) else 0)"
  by (induction ys) (auto simp: merge_academy_def merged_of_fields o_def case_prod_unfold)

lemma count_merged:
  "length (filter (\<lambda>m. region m = d) (merge_academy (merge_price df_price ys) df_academy)) =
     length (filter (\<lambda>(k, p). k = d) df_price) * length (filter (\<lambda>y. index y = d) ys)
       * length (filter (\<lambda>(k, n). k = d) df_academy)"
proof (induction df_price)
  case Nil
  then show ?case by (simp add: merge_price_def merge_academy_def)
next
  case (Cons kp df_price)
  obtain reg p where kp: "kp = (reg, p)" by (cases kp)
  have split: "merge_price (kp # df_price) ys =
      map (\<lambda>y. (reg, p, y)) (filter (\<lambda>y. index y = reg) ys) @ merge_price df_price ys"
    by (simp add: merge_price_def kp)
  show ?case
    unfolding split merge_academy_append filter_append length_append Cons.IH merge_academy_one
    by (auto simp: kp algebra_simps)
qed

lemma index_youth_filter:
  "length (filter (\<lambda>y. index y = d) (map youth rs)) = length (filter (\<lambda>r. index r = d) rs)"
  by (induction rs) (auto simp: youth_fields)

subsection \<open>The example sheets, evaluated\<close>

lemmas literal_defs =
  k_gender_def k_total_def k_region_def k_age_def y2024_def y2023_def
  kw_0_4_def kw_5_9_def kw_10_14_def kw_15_19_def gangnam_def

lemma select_year_header_2023: "select_year header_2023 = IntLabel 2023"
  by (simp add: select_year_eq header_2023_def literal_defs)

lemma strip_gangnam: "strip gangnam = gangnam"
  by (simp add: strip_def lstrip_def rstrip_def isspace_def gangnam_def)

lemma load_pivot_scenario: "load_pivot scenario_sheet = Inr scenario_frame"
  by (simp add: load_pivot_def scenario_sheet_def select_year_header_2023 Let_def pivot_def
      pivot_cell_def aggregate_row_def scenario_frame_def scenario_cells_def strip_gangnam)
    (simp add: header_2023_def literal_defs)


lemma merge_scenario:
  "merge_academy (merge_price PRICE_DATA_2024 [youth \<lparr>index = gangnam, cells = cs\<rparr>]) ACADEMY_DATA =
     [merged_of gangnam 8150 (youth \<lparr>index = gangnam, cells = cs\<rparr>) 2578]"
  by (simp add: merge_academy_def merge_price_def PRICE_DATA_2024_def ACADEMY_DATA_def
      youth_fields gangnam_def)

lemma process_scenario:
  "process PRICE_DATA_2024 ACADEMY_DATA (Sheet scenario_sheet) =
     Inr [merged_of gangnam 8150 (youth \<lparr>index = gangnam, cells = scenario_cells\<rparr>) 2578]"
  by (simp add: process_def load_pivot_scenario add_columns_def scenario_frame_def merge_scenario)



subsection \<open>The year lookup and the exceptions of the pivot\<close>

lemma select_year_cases:
  "select_year cols \<in> {TextLabel y2024, IntLabel 2024, TextLabel y2023, IntLabel 2023}"
  by (simp add: select_year_eq)

lemma load_pivot_year_lookup:
  assumes "select_year (columns t) \<in> set (columns t)"
  shows "load_pivot t \<noteq> Inl (KeyError (select_year (columns t)))"
proof -
  have k: "k_gender \<noteq> y2024" "k_gender \<noteq> y2023" "k_region \<noteq> y2024" "k_region \<noteq> y2023"
    "k_age \<noteq> y2024" "k_age \<noteq> y2023"
    by (simp_all add: literal_defs)
  have ne: "select_year (columns t) \<noteq> TextLabel k_gender"
    "select_year (columns t) \<noteq> TextLabel k_region" "select_year (columns t) \<noteq> TextLabel k_age"
    using select_year_cases[of "columns t"] k by auto
  show ?thesis
    using assms ne
    by (auto simp: load_pivot_def Let_def pivot_def split: if_splits sum.splits)
qed

lemma load_pivot_no_year:
  assumes "select_year (columns t) \<notin> set (columns t)"
  shows "\<exists>l. load_pivot t = Inl (KeyError l)"
  using assms by (simp add: load_pivot_def Let_def)

lemma load_pivot_duplicate: "load_pivot duplicate_sheet = Inl ValueError"
  by (simp add: load_pivot_def duplicate_sheet_def select_year_header_2023 Let_def pivot_def
      aggregate_row_def)
    (simp add: header_2023_def literal_defs)

lemma load_pivot_no_total:
  "load_pivot no_total_sheet =
     Inr \<lparr>age_columns = [kw_0_4], frame_rows = [\<lparr>index = gangnam, cells = [(kw_0_4, Fin 10000)]\<rparr>]\<rparr>"
  by (simp add: load_pivot_def no_total_sheet_def select_year_header_2023 Let_def pivot_def
      pivot_cell_def aggregate_row_def strip_gangnam)
    (simp add: header_2023_def literal_defs)

lemma process_no_total:
  "process df_price df_academy (Sheet no_total_sheet) = Inl (KeyError (TextLabel k_total))"
  by (simp add: process_def load_pivot_no_total add_columns_def)
    (simp add: literal_defs)

subsection \<open>Row sums\<close>

lemma foldl_fadd_finite:
  "\<forall>v\<in>set vs. isfinite v \<or> isnan v \<Longrightarrow>
     foldl fadd (Fin a) (filter (\<lambda>v. \<not> isnan v) vs) = Fin (a + sum_list (map cell_value vs))"
proof (induction vs arbitrary: a)
  case Nil
  then show ?case by simp
next
  case (Cons v vs)
  then show ?case by (cases v) (simp_all add: cell_value_def add.assoc)
qed

lemma nansum_finite:
  "\<forall>v\<in>set vs. isfinite v \<or> isnan v \<Longrightarrow> nansum vs = Fin (sum_list (map cell_value vs))"
  using foldl_fadd_finite[of vs 0] by (simp add: nansum_def)

lemma target_cols_single:
  "target_cols [k] cs = filter (\<lambda>(c, v). \<exists>pre post. c = pre @ k @ post) cs"
  by (simp add: target_cols_def str_in_iff)

lemma get_sum_no_match:
  "\<forall>c\<in>set (map fst cs). \<not> str_in k c \<Longrightarrow> get_sum [k] cs = Fin 0"
proof -
  assume "\<forall>c\<in>set (map fst cs). \<not> str_in k c"
  then have "target_cols [k] cs = []"
    by (auto simp: target_cols_def filter_empty_conv)
  then show ?thesis by (simp add: get_sum_def nansum_def)
qed

lemma process_after_pivot:
  "load_pivot t = Inr df_pivot \<Longrightarrow> k_total \<in> set (age_columns df_pivot) \<Longrightarrow>
     process df_price df_academy (Sheet t) =
       Inr (merge_academy (merge_price df_price (map youth (frame_rows df_pivot))) df_academy)"
  by (simp add: process_def add_columns_def)

lemma load_pivot_tight:
  "load_pivot tight_sheet =
     Inr \<lparr>age_columns = [tight_0_4, tight_10_14, tight_15_19, tight_5_9, k_total],
          frame_rows = [\<lparr>index = gangnam, cells = tight_cells\<rparr>]\<rparr>"
  by (simp add: load_pivot_def tight_sheet_def select_year_header_2023 Let_def pivot_def
      pivot_cell_def aggregate_row_def tight_cells_def strip_gangnam)
    (simp add: header_2023_def literal_defs tight_0_4_def tight_5_9_def tight_10_14_def
      tight_15_19_def)

lemma process_tight:
  "process PRICE_DATA_2024 ACADEMY_DATA (Sheet tight_sheet) =
     Inr [merged_of gangnam 8150 (youth \<lparr>index = gangnam, cells = tight_cells\<rparr>) 2578]"
  by (simp add: process_def load_pivot_tight add_columns_def merge_scenario)

subsection \<open>The spacing of the keywords\<close>

lemma str_in_trans: "str_in a b \<Longrightarrow> str_in b c \<Longrightarrow> str_in a c"
proof -
  assume "str_in a b" and "str_in b c"
  then obtain p q p' q' where "b = p @ a @ q" and "c = p' @ b @ q'"
    by (auto simp: str_in_iff)
  then have "c = (p' @ p) @ a @ (q @ q')" by simp
  then show ?thesis unfolding str_in_iff by blast
qed

lemma keywords_spaced:
  "str_in [0x20, 0x2D, 0x20] kw_0_4" "str_in [0x20, 0x2D, 0x20] kw_5_9"
  "str_in [0x20, 0x2D, 0x20] kw_10_14" "str_in [0x20, 0x2D, 0x20] kw_15_19"
  by (simp_all add: literal_defs)

lemma tight_labels_unspaced:
  "\<forall>c\<in>set (map fst tight_cells). \<not> str_in [0x20, 0x2D, 0x20] c"
  by (simp add: tight_cells_def tight_0_4_def tight_5_9_def tight_10_14_def tight_15_19_def
      literal_defs)

subsection \<open>Division by a zero total\<close>

lemma fdiv_zero_nonfinite: "\<not> isfinite (fdiv x (Fin 0))"
  by (cases x) simp_all

lemma fmul_100_nonfinite: "\<not> isfinite x \<Longrightarrow> \<not> isfinite (fmul x (Fin 100))"
  by (cases x) (simp_all add: scale_inf_def)

lemma fadd_nonfinite: "\<not> isfinite x \<Longrightarrow> \<not> isfinite y \<Longrightarrow> \<not> isfinite (fadd x y)"
  by (cases x; cases y) simp_all

lemma youth_zero_total:
  assumes "lookup_cell (cells r) k_total = Fin 0"
  shows "total_pop (youth r) = Fin 0" "\<not> isfinite (ratio_infant (youth r))"
    "\<not> isfinite (ratio_elem (youth r))" "\<not> isfinite (ratio_adol (youth r))"
    "\<not> isfinite (ratio_total_youth (youth r))"
proof -
  show t: "total_pop (youth r) = Fin 0"
    by (simp add: youth_fields(3) assms)
  show i: "\<not> isfinite (ratio_infant (youth r))"
    unfolding youth_fields(7) t by (intro fmul_100_nonfinite fdiv_zero_nonfinite)
  show e: "\<not> isfinite (ratio_elem (youth r))"
    unfolding youth_fields(8) t by (intro fmul_100_nonfinite fdiv_zero_nonfinite)
  show a: "\<not> isfinite (ratio_adol (youth r))"
    unfolding youth_fields(9) t by (intro fmul_100_nonfinite fdiv_zero_nonfinite)
  show "\<not> isfinite (ratio_total_youth (youth r))"
    unfolding youth_fields(10) by (intro fadd_nonfinite i e a)
qed

lemma lookup_cell_present:
  "lookup_cell cs a \<noteq> NaN \<Longrightarrow> a \<in> set (map fst cs)"
  by (auto simp: lookup_cell_def map_of_eq_None_iff split: option.splits dest: map_of_SomeD)
    (metis fst_conv image_eqI map_of_SomeD)

lemma load_pivot_zero_total:
  "load_pivot zero_total_sheet =
     Inr \<lparr>age_columns = [kw_0_4, k_total],
          frame_rows = [\<lparr>index = gangnam, cells = zero_total_cells\<rparr>]\<rparr>"
  by (simp add: load_pivot_def zero_total_sheet_def select_year_header_2023 Let_def pivot_def
      pivot_cell_def aggregate_row_def zero_total_cells_def strip_gangnam)
    (simp add: header_2023_def literal_defs)

lemma process_zero_total:
  "process PRICE_DATA_2024 ACADEMY_DATA (Sheet zero_total_sheet) =
     Inr [merged_of gangnam 8150 (youth \<lparr>index = gangnam, cells = zero_total_cells\<rparr>) 2578]"
  by (simp add: process_def load_pivot_zero_total add_columns_def merge_scenario)

lemma youth_zero_total_values:
  "infant (youth \<lparr>index = gangnam, cells = zero_total_cells\<rparr>) = Fin 10000"
  "elementary (youth \<lparr>index = gangnam, cells = zero_total_cells\<rparr>) = Fin 0"
  "total_pop (youth \<lparr>index = gangnam, cells = zero_total_cells\<rparr>) = Fin 0"
  by (simp_all add: youth_fields get_sum_def target_cols_def nansum_def lookup_cell_def
      zero_total_cells_def literal_defs)

lemma gangnam_in_tables:
  "(gangnam, 8150) \<in> set PRICE_DATA_2024" "(gangnam, 2578) \<in> set ACADEMY_DATA"
  by (simp_all add: PRICE_DATA_2024_def ACADEMY_DATA_def gangnam_def)

subsection \<open>Non-negative counts\<close>

lemma fadd_nonneg: "nonneg x \<Longrightarrow> nonneg y \<Longrightarrow> nonneg (fadd x y)"
  by (cases x; cases y) simp_all

lemma fmul_weight_nonneg: "nonneg x \<Longrightarrow> 0 < w \<Longrightarrow> nonneg (fmul x (Fin w))"
  by (cases x) (simp_all add: scale_inf_def)

lemma foldl_fadd_nonneg:
  "nonneg a \<Longrightarrow> \<forall>v\<in>set vs. nonneg v \<or> isnan v \<Longrightarrow>
     nonneg (foldl fadd a (filter (\<lambda>v. \<not> isnan v) vs))"
proof (induction vs arbitrary: a)
  case Nil
  then show ?case by simp
next
  case (Cons v vs)
  show ?case
  proof (cases "isnan v")
    case True
    with Cons show ?thesis by simp
  next
    case False
    with Cons.prems have "nonneg (fadd a v)" by (simp add: fadd_nonneg)
    with Cons False show ?thesis by simp
  qed
qed

lemma nansum_nonneg: "\<forall>v\<in>set vs. nonneg v \<or> isnan v \<Longrightarrow> nonneg (nansum vs)"
  by (simp add: nansum_def foldl_fadd_nonneg)

lemma get_sum_nonneg:
  assumes "\<forall>(c, v)\<in>set cs. str_in k c \<longrightarrow> nonneg v \<or> isnan v"
  shows "nonneg (get_sum [k] cs)"
proof -
  have "\<forall>v\<in>set (map snd (target_cols [k] cs)). nonneg v \<or> isnan v"
    using assms by (auto simp: target_cols_def)
  then show ?thesis unfolding get_sum_def by (rule nansum_nonneg)
qed

lemma pivot_cell_source_age:
  "pivot_cell rs y d a = NaN \<or> (\<exists>r\<in>set rs. age_label r = a \<and> pivot_cell rs y d a = cell r y)"
  by (auto simp: pivot_cell_def find_Some_iff split: option.splits)

lemma load_pivot_cell_source_age:
  assumes "load_pivot t = Inr df_pivot" and "r \<in> set (frame_rows df_pivot)"
    and "(a, v) \<in> set (cells r)"
  shows "v = NaN \<or> (\<exists>raw\<in>set (rows t). gender raw = k_total \<and> age_label raw = a \<and>
           v = cell raw (select_year (columns t)))"
proof -
  let ?rs = "filter (\<lambda>r. gender r = k_total) (rows t)"
  let ?row = "\<lambda>d. \<lparr>index = strip d,
      cells = map (\<lambda>a. (a, pivot_cell ?rs (select_year (columns t)) d a)) (age_columns df_pivot)\<rparr>"
  from assms(2) have "r \<in> ?row ` set (sort (remdups (map district ?rs)))"
    by (simp only: load_pivot_Inr(6)[OF assms(1)] set_map)
  then obtain d where "r = ?row d" by (rule imageE)
  then have "cells r = map (\<lambda>a. (a, pivot_cell ?rs (select_year (columns t)) d a)) (age_columns df_pivot)"
    by simp
  with assms(3) have "v = pivot_cell ?rs (select_year (columns t)) d a"
    by auto
  then show ?thesis
    using pivot_cell_source_age[of ?rs "select_year (columns t)" d a]
    by auto
qed

lemma youth_nonneg:
  assumes "\<forall>(c, v)\<in>set (cells r).
      str_in kw_0_4 c \<or> str_in kw_5_9 c \<or> str_in kw_10_14 c \<or> str_in kw_15_19 c \<longrightarrow>
      nonneg v \<or> isnan v"
  shows "nonneg (infant (youth r))" "nonneg (elementary (youth r))" "nonneg (adolescent (youth r))"
proof -
  have g: "nonneg (get_sum [kw_0_4] (cells r))" "nonneg (get_sum [kw_5_9] (cells r))"
    "nonneg (get_sum [kw_10_14] (cells r))" "nonneg (get_sum [kw_15_19] (cells r))"
    using assms by (auto intro!: get_sum_nonneg)
  show "nonneg (infant (youth r))"
    unfolding youth_fields(4) by (intro fadd_nonneg fmul_weight_nonneg g) simp
  show "nonneg (elementary (youth r))"
    unfolding youth_fields(5) by (intro fadd_nonneg fmul_weight_nonneg g) simp_all
  show "nonneg (adolescent (youth r))"
    unfolding youth_fields(6) by (intro fadd_nonneg fmul_weight_nonneg g) simp_all
qed

subsection \<open>Stripping\<close>

lemma lstrip_decomp: "s = takeWhile isspace s @ lstrip s"
  by (simp add: lstrip_def)

lemma rstrip_decomp: "s = rstrip s @ rev (takeWhile isspace (rev s))"
proof -
  have "rstrip s @ rev (takeWhile isspace (rev s)) =
      rev (takeWhile isspace (rev s) @ dropWhile isspace (rev s))"
    by (simp only: rstrip_def rev_append)
  also have "\<dots> = s"
    by (simp only: takeWhile_dropWhile_id rev_rev_ident)
  finally show ?thesis by (rule sym)
qed

lemma strip_decomp:
  "\<exists>pre post. s = pre @ strip s @ post \<and> list_all isspace pre \<and> list_all isspace post"
proof -
  let ?pre = "takeWhile isspace s"
  let ?post = "rev (takeWhile isspace (rev (lstrip s)))"
  have "s = ?pre @ lstrip s" by (rule lstrip_decomp)
  also have "lstrip s = strip s @ ?post"
    unfolding strip_def by (rule rstrip_decomp)
  finally have "s = ?pre @ strip s @ ?post" .
  moreover have "list_all isspace ?pre"
    by (auto simp: list_all_iff dest: set_takeWhileD)
  moreover have "list_all isspace ?post"
    by (auto simp: list_all_iff dest: set_takeWhileD)
  ultimately show ?thesis by blast
qed

lemma strip_ends:
  assumes "strip s \<noteq> []"
  shows "\<not> isspace (hd (strip s))" and "\<not> isspace (last (strip s))"
proof -
  let ?u = "lstrip s"
  from assms have u: "?u \<noteq> []"
    by (auto simp: strip_def rstrip_def)
  have "?u = strip s @ rev (takeWhile isspace (rev ?u))"
    unfolding strip_def by (rule rstrip_decomp)
  with assms have "hd (strip s) = hd ?u"
    by (metis hd_append2)
  moreover from u have "\<not> isspace (hd ?u)"
    unfolding lstrip_def by (rule hd_dropWhile)
  ultimately show "\<not> isspace (hd (strip s))" by simp
  from assms have d: "dropWhile isspace (rev ?u) \<noteq> []"
    by (simp add: strip_def rstrip_def)
  have "last (strip s) = hd (dropWhile isspace (rev ?u))"
    using d by (simp add: strip_def rstrip_def last_rev)
  moreover from d have "\<not> isspace (hd (dropWhile isspace (rev ?u)))"
    by (rule hd_dropWhile)
  ultimately show "\<not> isspace (last (strip s))" by simp
qed

lemma strip_padded_gangnam: "strip padded_gangnam = gangnam"
  by (simp add: strip_def lstrip_def rstrip_def isspace_def padded_gangnam_def gangnam_def)

lemma load_pivot_padded:
  "load_pivot padded_sheet =
     Inr \<lparr>age_columns = [k_total],
          frame_rows = [\<lparr>index = gangnam, cells = [(k_total, Fin 100000)]\<rparr>]\<rparr>"
  by (simp add: load_pivot_def padded_sheet_def select_year_header_2023 Let_def pivot_def
      pivot_cell_def aggregate_row_def strip_padded_gangnam)
    (simp add: header_2023_def literal_defs)

lemma process_padded:
  "process PRICE_DATA_2024 ACADEMY_DATA (Sheet padded_sheet) =
     Inr [merged_of gangnam 8150 (youth \<lparr>index = gangnam, cells = [(k_total, Fin 100000)]\<rparr>) 2578]"
  by (simp add: process_def load_pivot_padded add_columns_def merge_scenario)

subsection \<open>Rows per district\<close>

lemma count_list_filter: "count_list (map f xs) d = length (filter (\<lambda>x. f x = d) xs)"
  by (induction xs) auto

lemma count_list_distinct: "distinct xs \<Longrightarrow> count_list xs d = (if d \<in> set xs then 1 else 0)"
  by (induction xs) auto

lemma dictionaries_distinct:
  "distinct (map fst PRICE_DATA_2024)" "distinct (map fst ACADEMY_DATA)"
  by (simp_all add: PRICE_DATA_2024_def ACADEMY_DATA_def)

lemma strip_gangnam_space: "strip (gangnam @ [0x20]) = gangnam"
  by (simp add: strip_def lstrip_def rstrip_def isspace_def gangnam_def)

lemma load_pivot_split:
  "load_pivot split_sheet =
     Inr \<lparr>age_columns = [kw_0_4, k_total],
          frame_rows = [\<lparr>index = gangnam, cells = [(kw_0_4, NaN), (k_total, Fin 100000)]\<rparr>,
                        \<lparr>index = gangnam, cells = [(kw_0_4, Fin 10000), (k_total, NaN)]\<rparr>]\<rparr>"
  by (simp add: load_pivot_def split_sheet_def select_year_header_2023 Let_def pivot_def
      pivot_cell_def aggregate_row_def strip_gangnam strip_gangnam_space)
    (simp add: header_2023_def literal_defs)

lemma merge_two_gangnam:
  "merge_academy (merge_price PRICE_DATA_2024
       [youth \<lparr>index = gangnam, cells = cs\<rparr>, youth \<lparr>index = gangnam, cells = cs'\<rparr>]) ACADEMY_DATA =
     [merged_of gangnam 8150 (youth \<lparr>index = gangnam, cells = cs\<rparr>) 2578,
      merged_of gangnam 8150 (youth \<lparr>index = gangnam, cells = cs'\<rparr>) 2578]"
  by (simp add: merge_academy_def merge_price_def PRICE_DATA_2024_def ACADEMY_DATA_def
      youth_fields gangnam_def)

lemma process_split:
  "process PRICE_DATA_2024 ACADEMY_DATA (Sheet split_sheet) =
     Inr [merged_of gangnam 8150 (youth \<lparr>index = gangnam, cells = [(kw_0_4, NaN), (k_total, Fin 100000)]\<rparr>) 2578,
          merged_of gangnam 8150 (youth \<lparr>index = gangnam, cells = [(kw_0_4, Fin 10000), (k_total, NaN)]\<rparr>) 2578]"
  by (simp add: process_def load_pivot_split add_columns_def merge_two_gangnam)

lemma load_pivot_outsider:
  "load_pivot outsider_sheet =
     Inr \<lparr>age_columns = [k_total],
          frame_rows = [\<lparr>index = [0x58], cells = [(k_total, Fin 5)]\<rparr>,
                        \<lparr>index = gangnam, cells = [(k_total, Fin 100000)]\<rparr>]\<rparr>"
  by (simp add: load_pivot_def outsider_sheet_def select_year_header_2023 Let_def pivot_def
      pivot_cell_def aggregate_row_def)
    (simp add: header_2023_def literal_defs strip_def lstrip_def rstrip_def isspace_def)

lemma merge_outsider:
  "merge_academy (merge_price PRICE_DATA_2024
       [youth \<lparr>index = [0x58], cells = cs\<rparr>, youth \<lparr>index = gangnam, cells = cs'\<rparr>]) ACADEMY_DATA =
     [merged_of gangnam 8150 (youth \<lparr>index = gangnam, cells = cs'\<rparr>) 2578]"
  by (simp add: merge_academy_def merge_price_def PRICE_DATA_2024_def ACADEMY_DATA_def
      youth_fields gangnam_def)

lemma process_outsider:
  "process PRICE_DATA_2024 ACADEMY_DATA (Sheet outsider_sheet) =
     Inr [merged_of gangnam 8150 (youth \<lparr>index = gangnam, cells = [(k_total, Fin 100000)]\<rparr>) 2578]"
  by (simp add: process_def load_pivot_outsider add_columns_def merge_outsider)

subsection \<open>The ratio columns\<close>





section \<open>The claims\<close>



text \<open>
  C4. The year column: a column labelled 2024 (as text, else as integer) is selected when
  the header has one; otherwise a column labelled 2023 is selected when the header has
  one, and looking it up raises nothing; when the header has neither label, the selected
  label is not a column and the pipeline fails with the \<open>KeyError\<close> of a missing column,
  which \<open>load_and_process_data\<close> turns into the empty table and a diagnostic.
\<close>

theorem year_column_selection:
  "select_year (columns t) =
     (if TextLabel y2024 \<in> set (columns t) then TextLabel y2024
      else if IntLabel 2024 \<in> set (columns t) then IntLabel 2024
      else if TextLabel y2023 \<in> set (columns t) then TextLabel y2023
      else IntLabel 2023)
   \<and> (TextLabel y2024 \<in> set (columns t) \<or> IntLabel 2024 \<in> set (columns t) \<or>
       TextLabel y2023 \<in> set (columns t) \<or> IntLabel 2023 \<in> set (columns t) \<longrightarrow>
         select_year (columns t) \<in> set (columns t) \<and>
         load_pivot t \<noteq> Inl (KeyError (select_year (columns t))))
   \<and> (TextLabel y2024 \<notin> set (columns t) \<and> IntLabel 2024 \<notin> set (columns t) \<and>
       TextLabel y2023 \<notin> set (columns t) \<and> IntLabel 2023 \<notin> set (columns t) \<longrightarrow>
         (\<exists>l. load_pivot t = Inl (KeyError l)) \<and>
         (\<exists>l. process df_price df_academy (Sheet t) = Inl (KeyError l)) \<and>
         (\<exists>l. load_and_process_data (Sheet t) = ([], Some (KeyError l))))"
proof (intro conjI impI)
  show "select_year (columns t) =
     (if TextLabel y2024 \<in> set (columns t) then TextLabel y2024
      else if IntLabel 2024 \<in> set (columns t) then IntLabel 2024
      else if TextLabel y2023 \<in> set (columns t) then TextLabel y2023
      else IntLabel 2023)"
    by (rule select_year_eq)
next
  assume "TextLabel y2024 \<in> set (columns t) \<or> IntLabel 2024 \<in> set (columns t) \<or>
       TextLabel y2023 \<in> set (columns t) \<or> IntLabel 2023 \<in> set (columns t)"
  then show present: "select_year (columns t) \<in> set (columns t)"
    by (auto simp: select_year_eq)
  then show "load_pivot t \<noteq> Inl (KeyError (select_year (columns t)))"
    by (rule load_pivot_year_lookup)
next
  assume none: "TextLabel y2024 \<notin> set (columns t) \<and> IntLabel 2024 \<notin> set (columns t) \<and>
       TextLabel y2023 \<notin> set (columns t) \<and> IntLabel 2023 \<notin> set (columns t)"
  then have "select_year (columns t) \<notin> set (columns t)"
    by (simp add: select_year_eq)
  then obtain l where l: "load_pivot t = Inl (KeyError l)"
    using load_pivot_no_year by blast
  then show "\<exists>l. load_pivot t = Inl (KeyError l)" by blast
  from l have p: "\<And>P A. process P A (Sheet t) = Inl (KeyError l)"
    by (simp add: process_def)
  then show "\<exists>l. process df_price df_academy (Sheet t) = Inl (KeyError l)" by blast
  from p show "\<exists>l. load_and_process_data (Sheet t) = ([], Some (KeyError l))"
    by (simp add: load_and_process_data_def)
qed

theorem year_column_selection_witness:
  "select_year (columns text_years_sheet) = TextLabel y2024
   \<and> select_year (columns scenario_sheet) = IntLabel 2023
   \<and> load_pivot scenario_sheet = Inr scenario_frame
   \<and> load_pivot no_year_sheet = Inl (KeyError (IntLabel 2023))
   \<and> load_and_process_data (Sheet no_year_sheet) = ([], Some (KeyError (IntLabel 2023)))"
proof -
  have a: "select_year (columns text_years_sheet) = TextLabel y2024"
    using year_column_selection[of text_years_sheet]
    by (simp add: text_years_sheet_def)
  have b: "select_year (columns scenario_sheet) = IntLabel 2023"
    using year_column_selection[of scenario_sheet]
    by (simp add: scenario_sheet_def header_2023_def literal_defs)
  have none: "TextLabel y2024 \<notin> set (columns no_year_sheet) \<and> IntLabel 2024 \<notin> set (columns no_year_sheet) \<and>
       TextLabel y2023 \<notin> set (columns no_year_sheet) \<and> IntLabel 2023 \<notin> set (columns no_year_sheet)"
    by (simp add: no_year_sheet_def literal_defs)
  have c: "load_pivot no_year_sheet = Inl (KeyError (IntLabel 2023))"
    by (simp add: load_pivot_def select_year_eq Let_def no_year_sheet_def)
      (simp add: literal_defs)
  with year_column_selection[of no_year_sheet PRICE_DATA_2024 ACADEMY_DATA] none
  have d: "load_and_process_data (Sheet no_year_sheet) = ([], Some (KeyError (IntLabel 2023)))"
    by (auto simp: load_and_process_data_def process_def)
  from a b c d load_pivot_scenario show ?thesis by simp
qed

text \<open>
  C3. Every exception raised while loading or transforming is caught at the boundary of
  \<open>load_and_process_data\<close>: for every source the function returns, either the merged
  table of a run that raised nothing, or the empty table together with the diagnostic of
  the exception the run raised.
\<close>

theorem no_exception_escapes:
  "(\<exists>merged. process PRICE_DATA_2024 ACADEMY_DATA src = Inr merged \<and>
      load_and_process_data src = (merged, None))
   \<or> (\<exists>e. process PRICE_DATA_2024 ACADEMY_DATA src = Inl e \<and>
      load_and_process_data src = ([], Some e))"
  by (cases "process PRICE_DATA_2024 ACADEMY_DATA src") (simp_all add: load_and_process_data_def)

theorem no_exception_escapes_witness:
  "load_and_process_data Unreadable = ([], Some ReadError)
   \<and> load_and_process_data (Sheet no_year_sheet) = ([], Some (KeyError (IntLabel 2023)))
   \<and> load_and_process_data (Sheet duplicate_sheet) = ([], Some ValueError)
   \<and> load_and_process_data (Sheet no_total_sheet) = ([], Some (KeyError (TextLabel k_total)))"
proof -
  have a: "process PRICE_DATA_2024 ACADEMY_DATA Unreadable = Inl ReadError"
    by (simp add: process_def)
  have "load_pivot no_year_sheet = Inl (KeyError (IntLabel 2023))"
    by (simp add: load_pivot_def select_year_eq Let_def no_year_sheet_def)
      (simp add: literal_defs)
  then have b: "process PRICE_DATA_2024 ACADEMY_DATA (Sheet no_year_sheet) = Inl (KeyError (IntLabel 2023))"
    by (simp add: process_def)
  have c: "process PRICE_DATA_2024 ACADEMY_DATA (Sheet duplicate_sheet) = Inl ValueError"
    by (simp add: process_def load_pivot_duplicate)
  note d = process_no_total[of PRICE_DATA_2024 ACADEMY_DATA]
  from no_exception_escapes[of Unreadable] a
  have 1: "load_and_process_data Unreadable = ([], Some ReadError)" by simp
  from no_exception_escapes[of "Sheet no_year_sheet"] b
  have 2: "load_and_process_data (Sheet no_year_sheet) = ([], Some (KeyError (IntLabel 2023)))" by simp
  from no_exception_escapes[of "Sheet duplicate_sheet"] c
  have 3: "load_and_process_data (Sheet duplicate_sheet) = ([], Some ValueError)" by simp
  from no_exception_escapes[of "Sheet no_total_sheet"] d
  have 4: "load_and_process_data (Sheet no_total_sheet) = ([], Some (KeyError (TextLabel k_total)))" by simp
  from 1 2 3 4 show ?thesis by simp
qed

text \<open>
  C6. The count of a bracket in a row is the sum over the columns whose label contains
  the bracket's keyword as a substring (a missing cell adds nothing): several matching
  columns are added up, and when no column matches the count is 0. A bracket without a
  column is no error: once the pivot has succeeded, the run succeeds whenever the total
  column is there.
\<close>

theorem bracket_count_is_substring_sum:
  "get_sum [k] cs = nansum (map snd (filter (\<lambda>(c, v). \<exists>pre post. c = pre @ k @ post) cs))
   \<and> ((\<forall>(c, v)\<in>set cs. (\<exists>pre post. c = pre @ k @ post) \<longrightarrow> isfinite v \<or> isnan v) \<longrightarrow>
        get_sum [k] cs =
          Fin (sum_list (map (\<lambda>(c, v). cell_value v)
                 (filter (\<lambda>(c, v). \<exists>pre post. c = pre @ k @ post) cs))))
   \<and> ((\<forall>c\<in>set (map fst cs). \<not> (\<exists>pre post. c = pre @ k @ post)) \<longrightarrow> get_sum [k] cs = Fin 0)
   \<and> (load_pivot t = Inr df_pivot \<and> k_total \<in> set (age_columns df_pivot) \<longrightarrow>
        (\<exists>merged. process df_price df_academy (Sheet t) = Inr merged))"
proof (intro conjI impI)
  show eq: "get_sum [k] cs = nansum (map snd (filter (\<lambda>(c, v). \<exists>pre post. c = pre @ k @ post) cs))"
    by (simp add: get_sum_def target_cols_single)
  {
    assume fin: "\<forall>(c, v)\<in>set cs. (\<exists>pre post. c = pre @ k @ post) \<longrightarrow> isfinite v \<or> isnan v"
    let ?vs = "map snd (filter (\<lambda>(c, v). \<exists>pre post. c = pre @ k @ post) cs)"
    have "\<forall>v\<in>set ?vs. isfinite v \<or> isnan v"
    proof
      fix v
      assume "v \<in> set ?vs"
      then obtain c where "(c, v) \<in> set cs" and "\<exists>pre post. c = pre @ k @ post"
        by auto blast
      with fin show "isfinite v \<or> isnan v" by blast
    qed
    then have "nansum ?vs = Fin (sum_list (map cell_value ?vs))" by (rule nansum_finite)
    then show "get_sum [k] cs =
        Fin (sum_list (map (\<lambda>(c, v). cell_value v)
               (filter (\<lambda>(c, v). \<exists>pre post. c = pre @ k @ post) cs)))"
      by (simp add: eq o_def case_prod_unfold)
  }
  {
    assume "\<forall>c\<in>set (map fst cs). \<not> (\<exists>pre post. c = pre @ k @ post)"
    then have "\<forall>c\<in>set (map fst cs). \<not> str_in k c" by (simp add: str_in_iff)
    then show "get_sum [k] cs = Fin 0" by (rule get_sum_no_match)
  }
  {
    assume "load_pivot t = Inr df_pivot \<and> k_total \<in> set (age_columns df_pivot)"
    then show "\<exists>merged. process df_price df_academy (Sheet t) = Inr merged"
      by (simp add: process_after_pivot)
  }
qed

theorem bracket_count_is_substring_sum_witness:
  "get_sum [kw_0_4] two_match_cells = Fin (3 + 4)
   \<and> get_sum [kw_0_4] [(k_total, Fin 100)] = Fin 0
   \<and> process PRICE_DATA_2024 ACADEMY_DATA (Sheet tight_sheet) =
       Inr [merged_of gangnam 8150 (youth \<lparr>index = gangnam, cells = tight_cells\<rparr>) 2578]"
proof -
  have fin: "\<forall>(c, v)\<in>set two_match_cells.
      (\<exists>pre post. c = pre @ kw_0_4 @ post) \<longrightarrow> isfinite v \<or> isnan v"
    by (simp add: two_match_cells_def)
  from bracket_count_is_substring_sum[of kw_0_4 two_match_cells, THEN conjunct2, THEN conjunct1] fin
  have "get_sum [kw_0_4] two_match_cells =
      Fin (sum_list (map (\<lambda>(c, v). cell_value v)
             (filter (\<lambda>(c, v). \<exists>pre post. c = pre @ kw_0_4 @ post) two_match_cells)))"
    by (rule mp)
  then have "get_sum [kw_0_4] two_match_cells =
      Fin (sum_list (map (\<lambda>(c, v). cell_value v)
             (filter (\<lambda>(c, v). str_in kw_0_4 c) two_match_cells)))"
    by (simp only: str_in_iff[symmetric])
  then have a: "get_sum [kw_0_4] two_match_cells = Fin (3 + 4)"
    by (simp add: two_match_cells_def literal_defs cell_value_def)
  have none: "\<forall>c\<in>set (map fst [(k_total, Fin 100)]). \<not> (\<exists>pre post. c = pre @ kw_0_4 @ post)"
    by (simp add: str_in_iff[symmetric] literal_defs)
  with bracket_count_is_substring_sum[of kw_0_4 "[(k_total, Fin 100)]"]
  have b: "get_sum [kw_0_4] [(k_total, Fin 100)] = Fin 0"
    by blast
  have tot: "k_total \<in> set [tight_0_4, tight_10_14, tight_15_19, tight_5_9, k_total]"
    by simp
  from bracket_count_is_substring_sum[of _ _ tight_sheet
      "\<lparr>age_columns = [tight_0_4, tight_10_14, tight_15_19, tight_5_9, k_total],
        frame_rows = [\<lparr>index = gangnam, cells = tight_cells\<rparr>]\<rparr>" PRICE_DATA_2024 ACADEMY_DATA]
    load_pivot_tight tot
  have "\<exists>merged. process PRICE_DATA_2024 ACADEMY_DATA (Sheet tight_sheet) = Inr merged"
    by simp
  with a b process_tight show ?thesis by simp
qed

text \<open>
  C10. The four keywords are the literals with a space on each side of the hyphen. In a
  row none of whose age labels contains space, hyphen, space (labels written \<open>'0-4'\<close> and
  so on), no column matches any keyword: the four bracket counts are 0 and so are the
  three estimates, whatever the numbers under those labels.
\<close>

theorem unspaced_labels_count_zero:
  "kw_0_4 = [0x30] @ [0x20, 0x2D, 0x20] @ [0x34, 0xC138]
   \<and> kw_5_9 = [0x35] @ [0x20, 0x2D, 0x20] @ [0x39, 0xC138]
   \<and> kw_10_14 = [0x31, 0x30] @ [0x20, 0x2D, 0x20] @ [0x31, 0x34, 0xC138]
   \<and> kw_15_19 = [0x31, 0x35] @ [0x20, 0x2D, 0x20] @ [0x31, 0x39, 0xC138]
   \<and> ((\<forall>c\<in>set (map fst (cells r)). \<not> str_in [0x20, 0x2D, 0x20] c) \<longrightarrow>
        target_cols [kw_0_4] (cells r) = [] \<and> target_cols [kw_5_9] (cells r) = [] \<and>
        target_cols [kw_10_14] (cells r) = [] \<and> target_cols [kw_15_19] (cells r) = [] \<and>
        get_sum [kw_0_4] (cells r) = Fin 0 \<and> get_sum [kw_5_9] (cells r) = Fin 0 \<and>
        get_sum [kw_10_14] (cells r) = Fin 0 \<and> get_sum [kw_15_19] (cells r) = Fin 0 \<and>
        infant (youth r) = Fin 0 \<and> elementary (youth r) = Fin 0 \<and> adolescent (youth r) = Fin 0)"
proof (intro conjI impI)
  assume un: "\<forall>c\<in>set (map fst (cells r)). \<not> str_in [0x20, 0x2D, 0x20] c"
  have no: "\<forall>c\<in>set (map fst (cells r)). \<not> str_in k c" if "str_in [0x20, 0x2D, 0x20] k" for k
    using un that str_in_trans by blast
  show t1: "target_cols [kw_0_4] (cells r) = []"
    using no[OF keywords_spaced(1)] by (auto simp: target_cols_def filter_empty_conv)
  show t2: "target_cols [kw_5_9] (cells r) = []"
    using no[OF keywords_spaced(2)] by (auto simp: target_cols_def filter_empty_conv)
  show t3: "target_cols [kw_10_14] (cells r) = []"
    using no[OF keywords_spaced(3)] by (auto simp: target_cols_def filter_empty_conv)
  show t4: "target_cols [kw_15_19] (cells r) = []"
    using no[OF keywords_spaced(4)] by (auto simp: target_cols_def filter_empty_conv)
  show g1: "get_sum [kw_0_4] (cells r) = Fin 0"
    by (simp add: get_sum_def t1 nansum_def)
  show g2: "get_sum [kw_5_9] (cells r) = Fin 0"
    by (simp add: get_sum_def t2 nansum_def)
  show g3: "get_sum [kw_10_14] (cells r) = Fin 0"
    by (simp add: get_sum_def t3 nansum_def)
  show g4: "get_sum [kw_15_19] (cells r) = Fin 0"
    by (simp add: get_sum_def t4 nansum_def)
  show "infant (youth r) = Fin 0"
    by (simp add: youth_fields g1 g2)
  show "elementary (youth r) = Fin 0"
    by (simp add: youth_fields g2 g3)
  show "adolescent (youth r) = Fin 0"
    by (simp add: youth_fields g3 g4)
qed (simp_all add: literal_defs)

theorem unspaced_labels_count_zero_witness:
  "load_and_process_data (Sheet tight_sheet) =
     ([merged_of gangnam 8150 (youth \<lparr>index = gangnam, cells = tight_cells\<rparr>) 2578], None)
   \<and> map_of tight_cells tight_0_4 = Some (Fin 10000)
   \<and> infant (merged_of gangnam 8150 (youth \<lparr>index = gangnam, cells = tight_cells\<rparr>) 2578) = Fin 0
   \<and> elementary (merged_of gangnam 8150 (youth \<lparr>index = gangnam, cells = tight_cells\<rparr>) 2578) = Fin 0
   \<and> adolescent (merged_of gangnam 8150 (youth \<lparr>index = gangnam, cells = tight_cells\<rparr>) 2578) = Fin 0"
proof -
  let ?r = "\<lparr>index = gangnam, cells = tight_cells\<rparr>"
  have un: "\<forall>c\<in>set (map fst (cells ?r)). \<not> str_in [0x20, 0x2D, 0x20] c"
    using tight_labels_unspaced by simp
  from unspaced_labels_count_zero[of ?r] un
  have "infant (youth ?r) = Fin 0 \<and> elementary (youth ?r) = Fin 0 \<and> adolescent (youth ?r) = Fin 0"
    by blast
  moreover have "map_of tight_cells tight_0_4 = Some (Fin 10000)"
    by (simp add: tight_cells_def)
  ultimately show ?thesis
    by (simp add: load_and_process_data_def process_tight merged_of_fields)
qed

text \<open>
  C7. When the total population of a district is zero, the ratio computations raise
  nothing: the run succeeds, and the district's row is in the merged output (its name
  being in both reference tables) with the zero total and with non-finite values in
  \<open>ratio_infant\<close>, \<open>ratio_elem\<close>, \<open>ratio_adol\<close> and \<open>ratio_total_youth\<close>.
\<close>

theorem zero_total_ratios_nonfinite:
  assumes "load_pivot t = Inr df_pivot" and "r \<in> set (frame_rows df_pivot)"
    and "lookup_cell (cells r) k_total = Fin 0"
    and "(index r, p) \<in> set df_price" and "(index r, n) \<in> set df_academy"
  shows "\<exists>merged. process df_price df_academy (Sheet t) = Inr merged \<and>
           (\<exists>m\<in>set merged. m = merged_of (index r) p (youth r) n \<and> region m = index r \<and>
              total_pop m = Fin 0 \<and> \<not> isfinite (ratio_infant m) \<and> \<not> isfinite (ratio_elem m) \<and>
              \<not> isfinite (ratio_adol m) \<and> \<not> isfinite (ratio_total_youth m))"
proof -
  from assms(3) have "lookup_cell (cells r) k_total \<noteq> NaN" by simp
  then have "k_total \<in> set (map fst (cells r))" by (rule lookup_cell_present)
  then have tot: "k_total \<in> set (age_columns df_pivot)"
    by (simp only: load_pivot_cells[OF assms(1,2)])
  let ?merged = "merge_academy (merge_price df_price (map youth (frame_rows df_pivot))) df_academy"
  let ?m = "merged_of (index r) p (youth r) n"
  have run: "process df_price df_academy (Sheet t) = Inr ?merged"
    using assms(1) tot by (rule process_after_pivot)
  have "\<exists>reg p' y n'. (reg, p') \<in> set df_price \<and> y \<in> set (map youth (frame_rows df_pivot)) \<and>
      index y = reg \<and> (reg, n') \<in> set df_academy \<and> ?m = merged_of reg p' y n'"
    using assms(2,4,5)
    by (intro exI[of _ "index r"] exI[of _ p] exI[of _ "youth r"] exI[of _ n])
      (simp add: youth_fields)
  then have mem: "?m \<in> set ?merged"
    by (simp only: merged_iff)
  have "region ?m = index r \<and> total_pop ?m = Fin 0 \<and> \<not> isfinite (ratio_infant ?m) \<and>
      \<not> isfinite (ratio_elem ?m) \<and> \<not> isfinite (ratio_adol ?m) \<and> \<not> isfinite (ratio_total_youth ?m)"
    by (simp add: merged_of_fields youth_zero_total[OF assms(3)])
  with run mem show ?thesis by blast
qed

theorem zero_total_ratios_nonfinite_witness:
  "process PRICE_DATA_2024 ACADEMY_DATA (Sheet zero_total_sheet) =
     Inr [merged_of gangnam 8150 (youth \<lparr>index = gangnam, cells = zero_total_cells\<rparr>) 2578]
   \<and> total_pop (merged_of gangnam 8150 (youth \<lparr>index = gangnam, cells = zero_total_cells\<rparr>) 2578) = Fin 0
   \<and> ratio_infant (merged_of gangnam 8150 (youth \<lparr>index = gangnam, cells = zero_total_cells\<rparr>) 2578) = PInf
   \<and> ratio_elem (merged_of gangnam 8150 (youth \<lparr>index = gangnam, cells = zero_total_cells\<rparr>) 2578) = NaN
   \<and> \<not> isfinite (ratio_total_youth
          (merged_of gangnam 8150 (youth \<lparr>index = gangnam, cells = zero_total_cells\<rparr>) 2578))"
proof -
  let ?r = "\<lparr>index = gangnam, cells = zero_total_cells\<rparr>"
  let ?m = "merged_of gangnam 8150 (youth ?r) 2578"
  have mem: "?r \<in> set (frame_rows \<lparr>age_columns = [kw_0_4, k_total], frame_rows = [?r]\<rparr>)"
    by simp
  have z: "lookup_cell (cells ?r) k_total = Fin 0"
    by (simp add: lookup_cell_def zero_total_cells_def literal_defs)
  have p: "(index ?r, 8150) \<in> set PRICE_DATA_2024" and a: "(index ?r, 2578) \<in> set ACADEMY_DATA"
    using gangnam_in_tables by simp_all
  from zero_total_ratios_nonfinite[OF load_pivot_zero_total mem z p a]
  have "\<not> isfinite (ratio_total_youth ?m)"
    by (simp add: process_zero_total)
  moreover have "total_pop ?m = Fin 0" "ratio_infant ?m = PInf" "ratio_elem ?m = NaN"
    by (simp_all add: merged_of_fields youth_fields(7,8) youth_zero_total_values scale_inf_def)
  ultimately show ?thesis
    by (simp add: process_zero_total)
qed

text \<open>
  C8. When every bracket count of the source is non-negative, that is, every number in
  the year column of an aggregate row whose age label contains one of the four keywords
  (an empty cell being no count), then in every row of the merged output \<open>infant\<close>,
  \<open>elementary\<close> and \<open>adolescent\<close> are non-negative.
\<close>

theorem estimates_nonnegative:
  assumes "process df_price df_academy (Sheet t) = Inr merged" and "m \<in> set merged"
    and "\<forall>raw\<in>set (rows t).
           gender raw = k_total \<and>
           (str_in kw_0_4 (age_label raw) \<or> str_in kw_5_9 (age_label raw) \<or>
            str_in kw_10_14 (age_label raw) \<or> str_in kw_15_19 (age_label raw)) \<longrightarrow>
           nonneg (cell raw (select_year (columns t))) \<or> isnan (cell raw (select_year (columns t)))"
  shows "nonneg (infant m) \<and> nonneg (elementary m) \<and> nonneg (adolescent m)"
proof -
  from assms(1) obtain df_pivot :: frame where lp: "load_pivot t = Inr df_pivot"
    and merged: "merged = merge_academy (merge_price df_price (map youth (frame_rows df_pivot))) df_academy"
    by (auto simp: process_Inr)
  from assms(2) merged obtain reg p r n where r: "r \<in> set (frame_rows df_pivot)"
    and m: "m = merged_of reg p (youth r) n"
    by (auto simp: merged_iff)
  have "\<forall>(c, v)\<in>set (cells r).
      str_in kw_0_4 c \<or> str_in kw_5_9 c \<or> str_in kw_10_14 c \<or> str_in kw_15_19 c \<longrightarrow>
      nonneg v \<or> isnan v"
  proof (clarify)
    fix c v
    assume cv: "(c, v) \<in> set (cells r)"
      and k: "str_in kw_0_4 c \<or> str_in kw_5_9 c \<or> str_in kw_10_14 c \<or> str_in kw_15_19 c"
      and nn: "\<not> isnan v"
    from load_pivot_cell_source_age[OF lp r cv] nn obtain raw where
      "raw \<in> set (rows t)" "gender raw = k_total" "age_label raw = c"
      "v = cell raw (select_year (columns t))"
      by auto
    with assms(3) k nn show "nonneg v" by blast
  qed
  then show ?thesis
    by (simp add: m merged_of_fields youth_nonneg)
qed

theorem estimates_nonnegative_witness:
  "process PRICE_DATA_2024 ACADEMY_DATA (Sheet scenario_sheet) =
     Inr [merged_of gangnam 8150 (youth \<lparr>index = gangnam, cells = scenario_cells\<rparr>) 2578]
   \<and> nonneg (infant (merged_of gangnam 8150 (youth \<lparr>index = gangnam, cells = scenario_cells\<rparr>) 2578))
   \<and> nonneg (elementary (merged_of gangnam 8150 (youth \<lparr>index = gangnam, cells = scenario_cells\<rparr>) 2578))
   \<and> nonneg (adolescent (merged_of gangnam 8150 (youth \<lparr>index = gangnam, cells = scenario_cells\<rparr>) 2578))"
proof -
  let ?m = "merged_of gangnam 8150 (youth \<lparr>index = gangnam, cells = scenario_cells\<rparr>) 2578"
  have mem: "?m \<in> set [?m]" by simp
  have src: "\<forall>raw\<in>set (rows scenario_sheet).
      gender raw = k_total \<and>
      (str_in kw_0_4 (age_label raw) \<or> str_in kw_5_9 (age_label raw) \<or>
       str_in kw_10_14 (age_label raw) \<or> str_in kw_15_19 (age_label raw)) \<longrightarrow>
      nonneg (cell raw (select_year (columns scenario_sheet))) \<or>
      isnan (cell raw (select_year (columns scenario_sheet)))"
    by (simp add: scenario_sheet_def aggregate_row_def)
  from estimates_nonnegative[OF process_scenario mem src] process_scenario
  show ?thesis by simp
qed

text \<open>
  C9. Before the joins every district key of the pivoted table is replaced by its
  stripped form: the key with the whitespace at both ends removed and nothing else. So
  a district of the sheet whose name carries surrounding whitespace joins under its
  trimmed name: when that name is in both reference tables, a run that succeeds has a
  row for it.
\<close>

theorem district_keys_stripped:
  assumes "load_pivot t = Inr df_pivot"
  shows "map index (frame_rows df_pivot) =
           map strip (sort (remdups (map district (filter (\<lambda>r. gender r = k_total) (rows t)))))
     \<and> (\<forall>s. \<exists>pre post. s = pre @ strip s @ post \<and> list_all isspace pre \<and> list_all isspace post \<and>
           (strip s \<noteq> [] \<longrightarrow> \<not> isspace (hd (strip s)) \<and> \<not> isspace (last (strip s))))
     \<and> (\<forall>raw\<in>set (rows t). \<forall>merged.
           gender raw = k_total \<and> process df_price df_academy (Sheet t) = Inr merged \<and>
           strip (district raw) \<in> fst ` set df_price \<and> strip (district raw) \<in> fst ` set df_academy \<longrightarrow>
           (\<exists>m\<in>set merged. region m = strip (district raw)))"
proof (intro conjI allI ballI impI)
  show "map index (frame_rows df_pivot) =
      map strip (sort (remdups (map district (filter (\<lambda>r. gender r = k_total) (rows t)))))"
    using assms by (rule load_pivot_index)
next
  fix s
  from strip_decomp[of s] obtain pre post where
    "s = pre @ strip s @ post" "list_all isspace pre" "list_all isspace post"
    by blast
  then show "\<exists>pre post. s = pre @ strip s @ post \<and> list_all isspace pre \<and> list_all isspace post \<and>
      (strip s \<noteq> [] \<longrightarrow> \<not> isspace (hd (strip s)) \<and> \<not> isspace (last (strip s)))"
    using strip_ends[of s] by blast
next
  fix raw merged
  assume raw: "raw \<in> set (rows t)"
    and h: "gender raw = k_total \<and> process df_price df_academy (Sheet t) = Inr merged \<and>
      strip (district raw) \<in> fst ` set df_price \<and> strip (district raw) \<in> fst ` set df_academy"
  let ?d = "strip (district raw)"
  from h assms have merged:
    "merged = merge_academy (merge_price df_price (map youth (frame_rows df_pivot))) df_academy"
    by (auto simp: process_Inr)
  from raw h have "district raw \<in> set (sort (remdups (map district (filter (\<lambda>r. gender r = k_total) (rows t)))))"
    by simp
  then have "?d \<in> set (map index (frame_rows df_pivot))"
    unfolding load_pivot_index[OF assms] by simp
  then obtain r where r: "r \<in> set (frame_rows df_pivot)" and ir: "index r = ?d"
    by auto
  from h obtain p n where p: "(?d, p) \<in> set df_price" and n: "(?d, n) \<in> set df_academy"
    by auto
  have "\<exists>reg p' y n'. (reg, p') \<in> set df_price \<and> y \<in> set (map youth (frame_rows df_pivot)) \<and>
      index y = reg \<and> (reg, n') \<in> set df_academy \<and> merged_of ?d p (youth r) n = merged_of reg p' y n'"
    using r ir p n
    by (intro exI[of _ ?d] exI[of _ p] exI[of _ "youth r"] exI[of _ n]) (simp add: youth_fields)
  then have "merged_of ?d p (youth r) n \<in> set merged"
    by (simp only: merged merged_iff)
  moreover have "region (merged_of ?d p (youth r) n) = ?d"
    by (simp add: merged_of_fields)
  ultimately show "\<exists>m\<in>set merged. region m = ?d" by blast
qed

theorem district_keys_stripped_witness:
  "load_pivot padded_sheet =
     Inr \<lparr>age_columns = [k_total],
          frame_rows = [\<lparr>index = gangnam, cells = [(k_total, Fin 100000)]\<rparr>]\<rparr>
   \<and> padded_gangnam = [0x20] @ strip padded_gangnam @ [0x20, 0x3000]
   \<and> map region (fst (load_and_process_data (Sheet padded_sheet))) = [strip padded_gangnam]
   \<and> map price (fst (load_and_process_data (Sheet padded_sheet))) = [8150]"
proof -
  let ?df = "\<lparr>age_columns = [k_total],
      frame_rows = [\<lparr>index = gangnam, cells = [(k_total, Fin 100000)]\<rparr>]\<rparr>"
  let ?raw = "aggregate_row padded_gangnam k_total (Fin 100000)"
  note th = district_keys_stripped[OF load_pivot_padded, of PRICE_DATA_2024 ACADEMY_DATA]
  have raw: "?raw \<in> set (rows padded_sheet)"
    by (simp add: padded_sheet_def)
  have h: "gender ?raw = k_total \<and>
      process PRICE_DATA_2024 ACADEMY_DATA (Sheet padded_sheet) =
        Inr [merged_of gangnam 8150 (youth \<lparr>index = gangnam, cells = [(k_total, Fin 100000)]\<rparr>) 2578] \<and>
      strip (district ?raw) \<in> fst ` set PRICE_DATA_2024 \<and>
      strip (district ?raw) \<in> fst ` set ACADEMY_DATA"
    using gangnam_in_tables
    by (auto simp: aggregate_row_def process_padded strip_padded_gangnam image_iff intro!: bexI)
  from th raw h
  have "\<exists>m\<in>set [merged_of gangnam 8150 (youth \<lparr>index = gangnam, cells = [(k_total, Fin 100000)]\<rparr>) 2578].
      region m = strip (district ?raw)"
    by blast
  then have "map region (fst (load_and_process_data (Sheet padded_sheet))) = [strip padded_gangnam]"
    by (simp add: load_and_process_data_def process_padded aggregate_row_def)
  moreover have "padded_gangnam = [0x20] @ strip padded_gangnam @ [0x20, 0x3000]"
    by (simp add: strip_padded_gangnam) (simp add: padded_gangnam_def)
  moreover have "map price (fst (load_and_process_data (Sheet padded_sheet))) = [8150]"
    by (simp add: load_and_process_data_def process_padded merged_of_fields)
  ultimately show ?thesis
    using load_pivot_padded by simp
qed

text \<open>
  C2. The merged output need not hold exactly one row per district of the intersection:
  on \<open>split_sheet\<close>, whose rows spell one district once plainly and once with a trailing
  space, the run succeeds and the output has two rows for that district.
\<close>

theorem one_row_per_district_counterexample:
  "map region (fst (load_and_process_data (Sheet split_sheet))) = [gangnam, gangnam]
   \<and> snd (load_and_process_data (Sheet split_sheet)) = None"
  by (simp add: load_and_process_data_def process_split merged_of_fields)

text \<open>
  C2, amended. In a run that succeeds, with dictionaries of distinct keys: for a
  district name in both dictionaries the merged output holds as many rows as the pivoted
  table has keys that strip to that name, and for any other name none. So when the
  stripped keys are pairwise distinct, the output holds exactly one row per name in the
  intersection of the three sources, and a district that is not in the price dictionary
  has no row.
\<close>

theorem merged_rows_per_district:
  assumes "process df_price df_academy (Sheet t) = Inr merged"
    and "distinct (map fst df_price)" and "distinct (map fst df_academy)"
  shows "let names = map strip (sort (remdups (map district (filter (\<lambda>r. gender r = k_total) (rows t)))))
     in count_list (map region merged) d =
          (if d \<in> fst ` set df_price \<and> d \<in> fst ` set df_academy then count_list names d else 0)
        \<and> (distinct names \<longrightarrow>
             count_list (map region merged) d =
               (if d \<in> set names \<and> d \<in> fst ` set df_price \<and> d \<in> fst ` set df_academy then 1 else 0))
        \<and> (d \<notin> fst ` set df_price \<longrightarrow> d \<notin> set (map region merged))"
proof -
  let ?names = "map strip (sort (remdups (map district (filter (\<lambda>r. gender r = k_total) (rows t)))))"
  from assms(1) obtain df_pivot :: frame where lp: "load_pivot t = Inr df_pivot"
    and merged: "merged = merge_academy (merge_price df_price (map youth (frame_rows df_pivot))) df_academy"
    by (auto simp: process_Inr)
  have names: "map index (frame_rows df_pivot) = ?names"
    using lp by (rule load_pivot_index)
  have "count_list (map region merged) d =
      length (filter (\<lambda>(k, p). k = d) df_price) * length (filter (\<lambda>r. index r = d) (frame_rows df_pivot))
        * length (filter (\<lambda>(k, n). k = d) df_academy)"
    by (simp only: count_list_filter merged count_merged index_youth_filter)
  also have "length (filter (\<lambda>r. index r = d) (frame_rows df_pivot)) = count_list ?names d"
    by (simp only: names[symmetric] count_list_filter)
  finally have c: "count_list (map region merged) d =
      (if d \<in> fst ` set df_price \<and> d \<in> fst ` set df_academy then count_list ?names d else 0)"
    by (simp add: count_keys[OF assms(2)] count_keys[OF assms(3)])
  have one: "count_list (map region merged) d =
      (if d \<in> set ?names \<and> d \<in> fst ` set df_price \<and> d \<in> fst ` set df_academy then 1 else 0)"
    if "distinct ?names"
    using c by (simp add: count_list_distinct[OF that])
  have out: "d \<notin> set (map region merged)" if "d \<notin> fst ` set df_price"
  proof -
    from c that have "count_list (map region merged) d = 0" by simp
    then show ?thesis using count_list_0_iff[of "map region merged" d] by blast
  qed
  from c one out show ?thesis
    unfolding Let_def by blast
qed

theorem merged_rows_per_district_witness:
  "process PRICE_DATA_2024 ACADEMY_DATA (Sheet outsider_sheet) =
     Inr [merged_of gangnam 8150 (youth \<lparr>index = gangnam, cells = [(k_total, Fin 100000)]\<rparr>) 2578]
   \<and> map strip (sort (remdups (map district (filter (\<lambda>r. gender r = k_total) (rows outsider_sheet)))))
       = [[0x58], gangnam]
   \<and> count_list (map region [merged_of gangnam 8150
        (youth \<lparr>index = gangnam, cells = [(k_total, Fin 100000)]\<rparr>) 2578]) gangnam = 1
   \<and> [0x58] \<notin> set (map region [merged_of gangnam 8150
        (youth \<lparr>index = gangnam, cells = [(k_total, Fin 100000)]\<rparr>) 2578])"
proof -
  let ?merged = "[merged_of gangnam 8150 (youth \<lparr>index = gangnam, cells = [(k_total, Fin 100000)]\<rparr>) 2578]"
  have names: "map strip (sort (remdups (map district (filter (\<lambda>r. gender r = k_total) (rows outsider_sheet)))))
      = [[0x58], gangnam]"
    using load_pivot_index[OF load_pivot_outsider] by simp
  have dn: "distinct [[0x58], gangnam]"
    by (simp add: gangnam_def)
  have inp: "gangnam \<in> fst ` set PRICE_DATA_2024" "gangnam \<in> fst ` set ACADEMY_DATA"
    using gangnam_in_tables by (auto simp: image_iff intro!: bexI)
  have outp: "[0x58] \<notin> fst ` set PRICE_DATA_2024"
    by (simp add: PRICE_DATA_2024_def)
  note th = merged_rows_per_district[OF process_outsider dictionaries_distinct, unfolded Let_def names]
  from th[of gangnam] dn inp have a: "count_list (map region ?merged) gangnam = 1"
    by simp
  from th[of "[0x58]"] outp have b: "[0x58] \<notin> set (map region ?merged)"
    by blast
  from a b names process_outsider show ?thesis by simp
qed




end
